theory Spec2Isabelle
  imports Main "HOL-Library.Word"
begin

section \<open>Python strings\<close>

text \<open>
  A Python \<open>str\<close> is a sequence of Unicode code points; indexing, slicing and iteration
  count code points. A character is its code point, a string a list of them.
\<close>

type_synonym pychar = nat
type_synonym pystr = "pychar list"

definition str :: "string \<Rightarrow> pystr" where
  "str s = map of_char s"

definition space :: pychar where
  "space = 32"

text \<open>\<open>sep.join(tokens)\<close>\<close>

fun str_join :: "pystr \<Rightarrow> pystr list \<Rightarrow> pystr" where
  "str_join sep [] = []"
| "str_join sep [t] = t"
| "str_join sep (t # u # ts) = t @ sep @ str_join sep (u # ts)"

text \<open>Decimal rendering of a number, as \<open>str(n)\<close> and the f-string \<open>{n}\<close> give it.\<close>

fun digits :: "nat \<Rightarrow> pystr" where
  "digits n = (if n < 10 then [48 + n] else digits (n div 10) @ [48 + n mod 10])"

definition str_of_int :: "int \<Rightarrow> pystr" where
  "str_of_int i = (if i < 0 then str ''-'' @ digits (nat (- i)) else digits (nat i))"

text \<open>The f-string rendering of a value that is a string or \<open>None\<close>.\<close>

definition fmt_opt :: "pystr option \<Rightarrow> pystr" where
  "fmt_opt v = (case v of None \<Rightarrow> str ''None'' | Some s \<Rightarrow> s)"

section \<open>Exceptions\<close>

text \<open>
  The exception classes the handlers of the program tell apart. Each value carries the
  text \<open>str(e)\<close>; a \<open>FileNotFoundError\<close> also carries its \<open>filename\<close> attribute
  (\<open>None\<close> when it was raised from a message alone). \<open>OtherException\<close> stands for every
  other subclass of \<open>Exception\<close> (\<open>TypeError\<close>, \<open>KeyError\<close>, \<open>PermissionError\<close>, ...).
\<close>

datatype exn =
    FileNotFoundError pystr "pystr option"
  | UnidentifiedImageError pystr
  | ValueError pystr
  | OtherException pystr

definition exn_str :: "exn \<Rightarrow> pystr" where
  "exn_str e = (case e of
      FileNotFoundError m f \<Rightarrow> m
    | UnidentifiedImageError m \<Rightarrow> m
    | ValueError m \<Rightarrow> m
    | OtherException m \<Rightarrow> m)"

section \<open>Images\<close>

text \<open>
  An RGBA image: its size and one pixel of four bytes for each position. Positions outside
  the size are never read by the operations below.
\<close>

type_synonym pixel = "8 word \<times> 8 word \<times> 8 word \<times> 8 word"

record image =
  width :: nat
  height :: nat
  pix :: "nat \<Rightarrow> nat \<Rightarrow> pixel"

text \<open>The image of a size filled with one colour.\<close>

definition filled :: "nat \<times> nat \<Rightarrow> pixel \<Rightarrow> image" where
  "filled sz color = \<lparr>width = fst sz, height = snd sz, pix = (\<lambda>x y. color)\<rparr>"

section \<open>What the interpreter, the platform and Pillow supply\<close>

text \<open>
  The program calls library functions whose tables and platform rules are not part of the
  repository. They are parameters of the model:
  \<^item> the character predicates of \<open>str\<close> on one code point, \<open>str.lower\<close> and \<open>repr\<close> on a
    string, and \<open>int\<close> on a string: the number, or the \<open>ValueError\<close> it raises;
  \<^item> \<open>os.path.join\<close> and \<open>os.path.expanduser\<close>, which depend on the platform;
  \<^item> \<open>blend dst src\<close>: the pixel Pillow's \<open>paste\<close> leaves where \<open>src\<close> is pasted over
    \<open>dst\<close> with the pasted image as its own mask;
  \<^item> \<open>none_size_text\<close>: the text of the \<open>TypeError\<close> that \<open>Image.new\<close> raises when the
    height of the size is \<open>None\<close>;
  \<^item> \<open>size_error_text\<close>: the text of the exception that \<open>Image.new\<close> raises for a size
    whose width is above Pillow's limit.
\<close>

record pyenv =
  isalpha :: "pychar \<Rightarrow> bool"
  islower :: "pychar \<Rightarrow> bool"
  isdigit :: "pychar \<Rightarrow> bool"
  isalnum :: "pychar \<Rightarrow> bool"
  isspace :: "pychar \<Rightarrow> bool"
  lower :: "pystr \<Rightarrow> pystr"
  repr :: "pystr \<Rightarrow> pystr"
  int_of_str :: "pystr \<Rightarrow> exn + int"
  path_join :: "pystr \<Rightarrow> pystr list \<Rightarrow> pystr"
  expanduser :: "pystr \<Rightarrow> pystr"
  blend :: "pixel \<Rightarrow> pixel \<Rightarrow> pixel"
  none_size_text :: pystr
  size_error_text :: "nat \<times> nat \<Rightarrow> pystr"

text \<open>\<open>token.isalnum()\<close>: every character is alphanumeric and there is at least one.\<close>

definition str_isalnum :: "pyenv \<Rightarrow> pystr \<Rightarrow> bool" where
  "str_isalnum env t = (t \<noteq> [] \<and> list_all (isalnum env) t)"

text \<open>\<open>s.split()\<close>: the maximal runs of non-whitespace characters, in order.\<close>

fun split_from :: "pyenv \<Rightarrow> pystr \<Rightarrow> pystr \<Rightarrow> pystr list" where
  "split_from env cur [] = (if cur = [] then [] else [cur])"
| "split_from env cur (c # cs) =
     (if isspace env c
      then (if cur = [] then split_from env [] cs else cur # split_from env [] cs)
      else split_from env (cur @ [c]) cs)"

definition split :: "pyenv \<Rightarrow> pystr \<Rightarrow> pystr list" where
  "split env s = split_from env [] s"

text \<open>\<open>s.strip()\<close>: leading and trailing whitespace removed.\<close>

definition strip :: "pyenv \<Rightarrow> pystr \<Rightarrow> pystr" where
  "strip env s = rev (dropWhile (isspace env) (rev (dropWhile (isspace env) s)))"

text \<open>
  \<open>img.paste(src, (x0, y0), src)\<close>: inside the box of \<open>src\<close>, clipped to \<open>img\<close>, every
  pixel becomes the blend of the old pixel and the pasted one; the rest is unchanged.
\<close>

definition paste :: "pyenv \<Rightarrow> image \<Rightarrow> image \<Rightarrow> nat \<times> nat \<Rightarrow> image" where
  "paste env img src box =
     img\<lparr>pix := (\<lambda>x y.
        if fst box \<le> x \<and> x < fst box + width src \<and> snd box \<le> y \<and> y < snd box + height src
           \<and> x < width img \<and> y < height img
        then blend env (pix img x y) (pix src (x - fst box) (y - snd box))
        else pix img x y)\<rparr>"

section \<open>The file system\<close>

text \<open>
  \<open>files\<close> holds the regular files: for each path, what \<open>Image.open(path).convert('RGBA')\<close>
  gives there, an image or the exception of a file that cannot be read or decoded.
  \<open>open_missing\<close> is the exception of opening a path that is no regular file, and
  \<open>save_fault\<close> the exception, if any, with which saving to a path fails (an unknown
  extension, a missing directory, a refused permission). \<open>new_fault\<close> is the exception,
  if any, with which the memory for a new image of a size cannot be had. \<open>log\<close> records
  every access the program makes to the disk, in order.
\<close>

datatype fs_event = Stat pystr | Open pystr | Save pystr

record world =
  files :: "pystr \<rightharpoonup> exn + image"
  open_missing :: "pystr \<Rightarrow> exn"
  save_fault :: "pystr \<Rightarrow> exn option"
  new_fault :: "nat \<times> nat \<Rightarrow> exn option"
  log :: "fs_event list"

definition os_path_isfile :: "world \<Rightarrow> pystr \<Rightarrow> bool \<times> world" where
  "os_path_isfile w p = (files w p \<noteq> None, w\<lparr>log := log w @ [Stat p]\<rparr>)"

definition Image_open :: "world \<Rightarrow> pystr \<Rightarrow> (exn + image) \<times> world" where
  "Image_open w p =
     ((case files w p of None \<Rightarrow> Inl (open_missing w p) | Some r \<Rightarrow> r),
      w\<lparr>log := log w @ [Open p]\<rparr>)"

definition Image_save :: "world \<Rightarrow> image \<Rightarrow> pystr \<Rightarrow> (exn + unit) \<times> world" where
  "Image_save w img p =
     (case save_fault w p of
        Some e \<Rightarrow> (Inl e, w\<lparr>log := log w @ [Save p]\<rparr>)
      | None \<Rightarrow> (Inr (), w\<lparr>files := (files w)(p \<mapsto> Inr img), log := log w @ [Save p]\<rparr>))"

text \<open>
  \<open>Image.new('RGBA', (w, h), color)\<close> for a size of two numbers. Pillow refuses a width
  above \<open>INT_MAX / 4 - 1\<close>, and the allocation may fail; otherwise the image is filled
  with the colour.
\<close>

definition PILLOW_MAX_WIDTH :: nat where
  "PILLOW_MAX_WIDTH = 536870910"

definition Image_new :: "pyenv \<Rightarrow> world \<Rightarrow> nat \<times> nat \<Rightarrow> pixel \<Rightarrow> exn + image" where
  "Image_new env w sz color =
     (if PILLOW_MAX_WIDTH < fst sz then Inl (OtherException (size_error_text env sz))
      else case new_fault w sz of
             Some e \<Rightarrow> Inl e
           | None \<Rightarrow> Inr (filled sz color))"

section \<open>main.py\<close>

definition SPACE_WIDTH :: nat where
  "SPACE_WIDTH = 30"

definition MAX_FILENAME_LENGTH :: nat where
  "MAX_FILENAME_LENGTH = 255"

definition DESKTOP_PATH :: "pyenv \<Rightarrow> pystr" where
  "DESKTOP_PATH env = expanduser env (str ''~/Desktop'')"

subsection \<open>generate_filename\<close>

text \<open>
  The wall-clock time \<open>datetime.now()\<close> is an input. \<open>strftime("%Y%m%d-%H%M%S")\<close> writes
  the year with four digits and the other fields with two, zero-padded; the fields of a
  \<open>datetime\<close> of the present never have more digits.
\<close>

record datetime =
  year :: nat
  month :: nat
  day :: nat
  hour :: nat
  minute :: nat
  second :: nat

definition dec2 :: "nat \<Rightarrow> pystr" where
  "dec2 n = [48 + n div 10 mod 10, 48 + n mod 10]"

definition dec4 :: "nat \<Rightarrow> pystr" where
  "dec4 n = [48 + n div 1000 mod 10, 48 + n div 100 mod 10, 48 + n div 10 mod 10, 48 + n mod 10]"

definition strftime :: "datetime \<Rightarrow> pystr" where
  "strftime t = dec4 (year t) @ dec2 (month t) @ dec2 (day t) @ str ''-''
                @ dec2 (hour t) @ dec2 (minute t) @ dec2 (second t)"

definition generate_filename :: "pyenv \<Rightarrow> datetime \<Rightarrow> pystr \<Rightarrow> pystr" where
  "generate_filename env now user_input =
     (let timestamp = strftime now;
          sanitized_input = str_join (str ''-'') (filter (str_isalnum env) (split env user_input));
          filename = sanitized_input @ str ''-'' @ timestamp @ str ''.png''
      in take MAX_FILENAME_LENGTH filename)"

subsection \<open>get_font_paths\<close>

type_synonym font_paths = "pystr \<times> pystr \<times> pystr"

definition get_font_paths :: "pyenv \<Rightarrow> int \<Rightarrow> pystr \<Rightarrow> font_paths" where
  "get_font_paths env font color =
     (let base_path = str ''Assets/FONTS/Font-'' @ str_of_int font @ str ''/Font-''
                      @ str_of_int font @ str ''-'' @ color
      in (path_join env base_path [str ''Letters''],
          path_join env base_path [str ''Numbers''],
          path_join env base_path [str ''Symbols'']))"

subsection \<open>get_character_image_path\<close>

definition SPECIAL_CHARACTERS :: "pychar \<rightharpoonup> pystr" where
  "SPECIAL_CHARACTERS = map_of
     [(33, str ''Exclamation''), (63, str ''Question''), (39, str ''Apostrophe''),
      (42, str ''Asterisk''), (41, str ''Bracket-Left''), (125, str ''Bracket-Left-2''),
      (93, str ''Bracket-Left-3''), (40, str ''Bracket-Right''), (123, str ''Bracket-Right-2''),
      (91, str ''Bracket-Right-3''), (94, str ''Caret''), (58, str ''Colon''),
      (36, str ''Dollar''), (61, str ''Equals''), (62, str ''Greater-than''),
      (45, str ''Hyphen''), (8734, str ''Infinity''), (60, str ''Less-than''),
      (35, str ''Number''), (37, str ''Percent''), (46, str ''Period''), (43, str ''Plus''),
      (34, str ''Quotation''), (59, str ''Semicolon''), (47, str ''Slash''),
      (126, str ''Tilde''), (95, str ''Underscore''), (124, str ''Vertical-bar''),
      (44, str ''Comma''), (38, str ''Ampersand''), (9829, str ''Heart''),
      (169, str ''Copyright''), (9974, str ''Square''), (8544, str ''One''),
      (8545, str ''Two''), (8546, str ''Three''), (8547, str ''Four''), (8548, str ''Five''),
      (9664, str ''Left''), (9650, str ''Up''), (9654, str ''Right''), (9660, str ''Down''),
      (9733, str ''Star''), (8902, str ''Mini-Star''), (9758, str ''Hand''), (165, str ''Yen''),
      (9834, str ''Musical-Note''), (65079, str ''Up-Arrow'')]"

text \<open>The message of the \<open>FileNotFoundError\<close> raised for a character.\<close>

definition not_found_text :: "pychar \<Rightarrow> pystr" where
  "not_found_text char = str ''Image not found for character '' @ [39, char, 39]"

text \<open>
  Lines 37 to 57: the path the branches build, or \<open>None\<close> where the space branch
  returns early.
\<close>

definition character_target :: "pyenv \<Rightarrow> pychar \<Rightarrow> font_paths \<Rightarrow> pystr option" where
  "character_target env char font_paths =
     (case font_paths of (CHARACTERS_FOLDER, NUMBERS_FOLDER, SYMBOLS_FOLDER) \<Rightarrow>
        if isalpha env char then
          (let folder = (if islower env char then str ''Lower-Case'' else str ''Upper-Case'')
           in Some (path_join env CHARACTERS_FOLDER [folder, char # str ''.png'']))
        else if isdigit env char then
          Some (path_join env NUMBERS_FOLDER [char # str ''.png''])
        else if char = space then None
        else
          Some (path_join env SYMBOLS_FOLDER
                  [(case SPECIAL_CHARACTERS char of None \<Rightarrow> [] | Some name \<Rightarrow> name)
                   @ str ''.png'']))"

text \<open>
  The whole function, with the check of lines 59 to 62. The result is \<open>Inr None\<close> for the
  early \<open>return None\<close>, \<open>Inr (Some path)\<close> for a path that passed \<open>os.path.isfile\<close>, and
  the raised \<open>FileNotFoundError\<close> otherwise.
\<close>

definition get_character_image_path ::
    "pyenv \<Rightarrow> world \<Rightarrow> pychar \<Rightarrow> font_paths \<Rightarrow> (exn + pystr option) \<times> world" where
  "get_character_image_path env w char font_paths =
     (case character_target env char font_paths of
        None \<Rightarrow> (Inr None, w)
      | Some char_img_path \<Rightarrow>
          (case os_path_isfile w char_img_path of (is_file, w') \<Rightarrow>
             if \<not> is_file then (Inl (FileNotFoundError (not_found_text char) None), w')
             else (Inr (Some char_img_path), w')))"

subsection \<open>generate_image_with_filename\<close>

text \<open>
  Lines 73 to 79: the image of one character, the transparent placeholder for a space and
  the opened asset otherwise.
\<close>

definition transparent :: pixel where
  "transparent = (0, 0, 0, 0)"

definition char_image ::
    "pyenv \<Rightarrow> world \<Rightarrow> pychar \<Rightarrow> font_paths \<Rightarrow> (exn + image) \<times> world" where
  "char_image env w char font_paths =
     (if char = space
      then (Image_new env w (SPACE_WIDTH, 1) transparent, w)
      else (case get_character_image_path env w char font_paths of
              (Inl e, w1) \<Rightarrow> (Inl e, w1)
            | (Inr None, w1) \<Rightarrow> (Inl (FileNotFoundError (not_found_text char) None), w1)
            | (Inr (Some char_img_path), w1) \<Rightarrow> Image_open w1 char_img_path))"

text \<open>
  The first loop (lines 72 to 82): for each character, in order, its image is stored
  under the character in \<open>char_images\<close>, and \<open>img_height\<close> is set from it while it is
  still \<open>None\<close>. An exception leaves the loop.
\<close>

fun load_char_images ::
    "pyenv \<Rightarrow> font_paths \<Rightarrow> pystr \<Rightarrow> nat option \<Rightarrow> (pychar \<rightharpoonup> image) \<Rightarrow> world
     \<Rightarrow> (exn + nat option \<times> (pychar \<rightharpoonup> image)) \<times> world" where
  "load_char_images env font_paths [] img_height char_images w =
     (Inr (img_height, char_images), w)"
| "load_char_images env font_paths (char # rest) img_height char_images w =
     (case char_image env w char font_paths of
        (Inl e, w') \<Rightarrow> (Inl e, w')
      | (Inr char_img, w') \<Rightarrow>
          load_char_images env font_paths rest
            (case img_height of None \<Rightarrow> Some (height char_img) | Some h \<Rightarrow> Some h)
            (char_images(char \<mapsto> char_img)) w')"

text \<open>
  Line 85: the list of the characters' images and widths. A character missing from
  \<open>char_images\<close> would raise \<open>KeyError\<close>, whose text is the \<open>repr\<close> of the key.
\<close>

fun char_list :: "pyenv \<Rightarrow> (pychar \<rightharpoonup> image) \<Rightarrow> pystr \<Rightarrow> exn + (image \<times> nat) list" where
  "char_list env char_images [] = Inr []"
| "char_list env char_images (char # rest) =
     (case char_images char of
        None \<Rightarrow> Inl (OtherException (repr env [char]))
      | Some char_img \<Rightarrow>
          (case char_list env char_images rest of
             Inl e \<Rightarrow> Inl e
           | Inr chars \<Rightarrow>
               Inr ((char_img, if char = space then SPACE_WIDTH else width char_img) # chars)))"

text \<open>The second loop (lines 92 to 94), from the cursor \<open>x\<close>.\<close>

fun paste_chars :: "pyenv \<Rightarrow> image \<Rightarrow> nat \<Rightarrow> (image \<times> nat) list \<Rightarrow> image" where
  "paste_chars env img x [] = img"
| "paste_chars env img x ((char_img, char_width) # rest) =
     paste_chars env (paste env img char_img (x, 0)) (x + char_width) rest"

text \<open>The body of the \<open>try\<close> block.\<close>

definition generate_image_body ::
    "pyenv \<Rightarrow> world \<Rightarrow> pystr \<Rightarrow> pystr \<Rightarrow> font_paths \<Rightarrow> (exn + unit) \<times> world" where
  "generate_image_body env w text filename font_paths =
     (let img_path = path_join env (DESKTOP_PATH env) [filename]
      in case load_char_images env font_paths text None Map.empty w of
           (Inl e, w1) \<Rightarrow> (Inl e, w1)
         | (Inr (img_height, char_images), w1) \<Rightarrow>
             (case char_list env char_images text of
                Inl e \<Rightarrow> (Inl e, w1)
              | Inr chars \<Rightarrow>
                  (let total_width = sum_list (map snd chars)
                   in case img_height of
                        None \<Rightarrow> (Inl (OtherException (none_size_text env)), w1)
                      | Some h \<Rightarrow>
                          (case Image_new env w1 (total_width, h) transparent of
                             Inl e \<Rightarrow> (Inl e, w1)
                           | Inr img \<Rightarrow>
                               (let img' = paste_chars env img 0 chars
                                in Image_save w1 img' img_path)))))"

text \<open>
  The four \<open>except\<close> clauses, in their order: the error description each returns for the
  exception it catches.
\<close>

definition error_description :: "exn \<Rightarrow> pystr" where
  "error_description e = (case e of
      FileNotFoundError m f \<Rightarrow> m
    | UnidentifiedImageError m \<Rightarrow> str ''Error: Unsupported image format''
    | ValueError m \<Rightarrow> str ''Error: Invalid input - '' @ m
    | OtherException m \<Rightarrow> str ''An unexpected error occurred: '' @ m @ str ''.'')"

text \<open>The function: the body under its handlers.\<close>

type_synonym render_result = "pystr option \<times> pystr option"

definition generate_image_with_filename ::
    "pyenv \<Rightarrow> world \<Rightarrow> pystr \<Rightarrow> pystr \<Rightarrow> font_paths \<Rightarrow> render_result \<times> world" where
  "generate_image_with_filename env w text filename font_paths =
     (case generate_image_body env w text filename font_paths of
        (Inr u, w') \<Rightarrow> ((Some filename, None), w')
      | (Inl e, w') \<Rightarrow> ((None, Some (error_description e)), w'))"

section \<open>ui.py\<close>

text \<open>
  The handler of the Generate button, from the values of the three widgets: the text, the
  font entry and the colour. The font entry is converted by \<open>int\<close> before the \<open>try\<close>
  block, so a \<open>ValueError\<close> of the conversion leaves the handler. What the handler does to
  the window is the list of its dialogs and of \<open>root.quit()\<close>, in order. The module imports
  \<open>generate_image\<close> from a \<open>main\<close> beside it that is not among the sources, so the renderer
  is a parameter; it may return its pair or raise.
\<close>

datatype ui_event =
    ShowInfo pystr pystr
  | ShowError pystr pystr
  | Quit

definition CLOSING_MESSAGE :: pystr where
  "CLOSING_MESSAGE = str ''Closing...''"

type_synonym renderer = "world \<Rightarrow> pystr \<Rightarrow> pystr \<Rightarrow> font_paths \<Rightarrow> (exn + render_result) \<times> world"

definition generate_and_display_image ::
    "pyenv \<Rightarrow> datetime \<Rightarrow> renderer \<Rightarrow> world \<Rightarrow> pystr \<Rightarrow> pystr \<Rightarrow> pystr
     \<Rightarrow> (exn + ui_event list) \<times> world" where
  "generate_and_display_image env now generate_image w text font_var color =
     (case int_of_str env font_var of
        Inl e \<Rightarrow> (Inl e, w)
      | Inr font \<Rightarrow>
          (let exit_events =
                 (if lower env text = str ''exit''
                  then [ShowInfo (str ''Info'') CLOSING_MESSAGE, Quit] else [])
           in if strip env text = [] then
                (Inr (exit_events @ [ShowError (str ''Error'')
                                       (str ''Input text is empty. Please enter some text.'')]), w)
              else
                (let filename = generate_filename env now text;
                     font_paths = get_font_paths env font color
                 in case generate_image w text filename font_paths of
                      (Inr (img_path, error_message_generate), w') \<Rightarrow>
                        (if error_message_generate \<noteq> None \<and> error_message_generate \<noteq> Some []
                         then
                           (Inr (exit_events @ [ShowError (str ''Error'')
                                   (str ''Error: '' @ fmt_opt error_message_generate)]), w')
                         else
                           (Inr (exit_events @ [ShowInfo (str ''Success'')
                                   (str ''Image successfully generated and saved as: ''
                                    @ fmt_opt img_path)]), w'))
                    | (Inl (FileNotFoundError m f), w') \<Rightarrow>
                        (Inr (exit_events @ [ShowError (str ''Error'')
                                (str ''Font file not found: '' @ fmt_opt f)]), w')
                    | (Inl e, w') \<Rightarrow>
                        (Inr (exit_events @ [ShowError (str ''Error'')
                                (str ''An error occurred: '' @ exn_str e)]), w'))))"

text \<open>The renderer of \<open>main.py\<close> as the handler's renderer: it never raises.\<close>

definition main_renderer :: "pyenv \<Rightarrow> renderer" where
  "main_renderer env w text filename font_paths =
     (case generate_image_with_filename env w text filename font_paths of
        (r, w') \<Rightarrow> (Inr r, w'))"

section \<open>Notions the properties are stated with\<close>

text \<open>
  What obtaining the image of one character gives in a world, and the accesses it makes
  there; both are read off \<open>char_image\<close>.
\<close>

definition char_outcome :: "pyenv \<Rightarrow> world \<Rightarrow> font_paths \<Rightarrow> pychar \<Rightarrow> exn + image" where
  "char_outcome env w fp c = fst (char_image env w c fp)"

definition char_events :: "pyenv \<Rightarrow> world \<Rightarrow> font_paths \<Rightarrow> pychar \<Rightarrow> fs_event list" where
  "char_events env w fp c = drop (length (log w)) (log (snd (char_image env w c fp)))"

text \<open>A character whose image is obtained, and that image.\<close>

definition loads :: "pyenv \<Rightarrow> world \<Rightarrow> font_paths \<Rightarrow> pychar \<Rightarrow> bool" where
  "loads env w fp c = (case char_outcome env w fp c of Inl e \<Rightarrow> False | Inr g \<Rightarrow> True)"

definition glyph :: "pyenv \<Rightarrow> world \<Rightarrow> font_paths \<Rightarrow> pychar \<Rightarrow> image" where
  "glyph env w fp c =
     (case char_outcome env w fp c of Inl e \<Rightarrow> filled (0, 0) transparent | Inr g \<Rightarrow> g)"

text \<open>
  The advance width of a character: \<open>SPACE_WIDTH\<close> for the space, the width of its glyph
  otherwise; and the sum of the advance widths of the first \<open>i\<close> characters of a text.
\<close>

definition advance :: "pyenv \<Rightarrow> world \<Rightarrow> font_paths \<Rightarrow> pychar \<Rightarrow> nat" where
  "advance env w fp c = (if c = space then SPACE_WIDTH else width (glyph env w fp c))"

definition offset :: "pyenv \<Rightarrow> world \<Rightarrow> font_paths \<Rightarrow> pystr \<Rightarrow> nat \<Rightarrow> nat" where
  "offset env w fp text i = sum_list (map (advance env w fp) (take i text))"

text \<open>The image a render left under its file name, and the accesses made between two worlds.\<close>

definition output_path :: "pyenv \<Rightarrow> pystr \<Rightarrow> pystr" where
  "output_path env filename = path_join env (DESKTOP_PATH env) [filename]"

definition output_image :: "pyenv \<Rightarrow> world \<Rightarrow> pystr \<Rightarrow> image option" where
  "output_image env w filename =
     (case files w (output_path env filename) of Some (Inr img) \<Rightarrow> Some img | _ \<Rightarrow> None)"

definition new_events :: "world \<Rightarrow> world \<Rightarrow> fs_event list" where
  "new_events w w' = drop (length (log w)) (log w')"

definition opened :: "fs_event list \<Rightarrow> pystr list" where
  "opened evs = concat (map (\<lambda>e. case e of Open p \<Rightarrow> [p] | _ \<Rightarrow> []) evs)"

definition saved :: "fs_event list \<Rightarrow> pystr list" where
  "saved evs = concat (map (\<lambda>e. case e of Save p \<Rightarrow> [p] | _ \<Rightarrow> []) evs)"

text \<open>
  The size of the canvas of a text whose characters all load, whether an image of a size
  can be created, and the image the two loops build on the canvas.
\<close>

definition canvas_size :: "pyenv \<Rightarrow> world \<Rightarrow> font_paths \<Rightarrow> pystr \<Rightarrow> nat \<times> nat" where
  "canvas_size env w fp text =
     (sum_list (map (advance env w fp) text),
      (case text of [] \<Rightarrow> 0 | c # cs \<Rightarrow> height (glyph env w fp c)))"

definition creatable :: "world \<Rightarrow> nat \<times> nat \<Rightarrow> bool" where
  "creatable w sz = (fst sz \<le> PILLOW_MAX_WIDTH \<and> new_fault w sz = None)"

definition composed :: "pyenv \<Rightarrow> world \<Rightarrow> font_paths \<Rightarrow> pystr \<Rightarrow> image" where
  "composed env w fp text =
     paste_chars env (filled (canvas_size env w fp text) transparent) 0
       (map (\<lambda>c. (glyph env w fp c, advance env w fp c)) text)"

section \<open>A concrete platform and asset store\<close>

text \<open>
  An instance to evaluate the definitions on: POSIX path joining, the character tables of
  CPython on ASCII and on the ideograph U+4E2D (alphabetic, without case), \<open>int\<close> on
  strings of ASCII digits (every other string is refused here), the text of
  CPython's \<open>TypeError\<close> for \<open>None < 0\<close> (code point 39 is the quote), and Pillow's blend
  of one byte under the mask byte \<open>m\<close>, \<open>((t >> 8) + t) >> 8\<close> for
  \<open>t = dst * (255 - m) + src * m + 128\<close>. Outside ASCII and U+4E2D the tables of this
  instance are not those of CPython.
\<close>

fun posix_join :: "pystr \<Rightarrow> pystr list \<Rightarrow> pystr" where
  "posix_join path [] = path"
| "posix_join path (b # bs) =
     posix_join (if b \<noteq> [] \<and> hd b = 47 then b
                 else if path = [] \<or> last path = 47 then path @ b
                 else path @ [47] @ b) bs"

definition blend8 :: "8 word \<Rightarrow> 8 word \<Rightarrow> 8 word \<Rightarrow> 8 word" where
  "blend8 m dst src =
     (let t = unat dst * (255 - unat m) + unat src * unat m + 128
      in of_nat ((t div 256 + t) div 256))"

definition pillow_blend :: "pixel \<Rightarrow> pixel \<Rightarrow> pixel" where
  "pillow_blend dst src =
     (case dst of (r, g, b, a) \<Rightarrow> case src of (r', g', b', a') \<Rightarrow>
        (blend8 a' r r', blend8 a' g g', blend8 a' b b', blend8 a' a a'))"

definition ascii_letter :: "pychar \<Rightarrow> bool" where
  "ascii_letter c = ((65 \<le> c \<and> c \<le> 90) \<or> (97 \<le> c \<and> c \<le> 122))"

definition ascii_digit :: "pychar \<Rightarrow> bool" where
  "ascii_digit c = (48 \<le> c \<and> c \<le> 57)"

definition demo_env :: pyenv where
  "demo_env =
     \<lparr>isalpha = (\<lambda>c. ascii_letter c \<or> c = 20013),
      islower = (\<lambda>c. 97 \<le> c \<and> c \<le> 122),
      isdigit = ascii_digit,
      isalnum = (\<lambda>c. ascii_letter c \<or> ascii_digit c \<or> c = 20013),
      isspace = (\<lambda>c. (9 \<le> c \<and> c \<le> 13) \<or> (28 \<le> c \<and> c \<le> 32)),
      lower = map (\<lambda>c. if 65 \<le> c \<and> c \<le> 90 then c + 32 else c),
      repr = (\<lambda>s. [39] @ s @ [39]),
      int_of_str = (\<lambda>s. if s \<noteq> [] \<and> list_all ascii_digit s
                         then Inr (int (foldl (\<lambda>n c. 10 * n + (c - 48)) 0 s))
                         else Inl (ValueError (str ''invalid literal for int() with base 10: ''
                                               @ [39] @ s @ [39]))),
      path_join = posix_join,
      expanduser = (\<lambda>p. str ''/home/user'' @ drop 1 p),
      blend = pillow_blend,
      none_size_text = [39, 60, 39] @ str '' not supported between instances of '' @ [39]
        @ str ''NoneType'' @ [39] @ str '' and '' @ [39] @ str ''int'' @ [39],
      size_error_text = (\<lambda>sz. [])\<rparr>"

text \<open>
  The asset store under the roots \<open>L\<close>, \<open>N\<close> and \<open>S\<close>: red glyphs for \<open>A\<close> (one pixel
  wide) and for \<open>B\<close> and \<open>!\<close> (two pixels wide) and a blue glyph for \<open>C\<close>, all two pixels
  high; a blue glyph for \<open>D\<close>, three pixels high; a file for \<open>U\<close> that Pillow cannot
  identify and a file for \<open>E\<close> that cannot be read. Nothing else is on the disk, every
  save succeeds and memory is never short.
\<close>

definition red :: pixel where
  "red = (255, 0, 0, 255)"

definition blue :: pixel where
  "blue = (0, 0, 255, 255)"

definition glyph_A :: image where
  "glyph_A = \<lparr>width = 1, height = 2, pix = (\<lambda>x y. red)\<rparr>"

definition glyph_B :: image where
  "glyph_B = \<lparr>width = 2, height = 2, pix = (\<lambda>x y. red)\<rparr>"

definition glyph_C :: image where
  "glyph_C = \<lparr>width = 1, height = 2, pix = (\<lambda>x y. blue)\<rparr>"

definition glyph_D :: image where
  "glyph_D = \<lparr>width = 1, height = 3, pix = (\<lambda>x y. blue)\<rparr>"

definition demo_fonts :: font_paths where
  "demo_fonts = (str ''L'', str ''N'', str ''S'')"

definition demo_world :: world where
  "demo_world =
     \<lparr>files = [str ''L/Upper-Case/A.png'' \<mapsto> Inr glyph_A,
               str ''L/Upper-Case/B.png'' \<mapsto> Inr glyph_B,
               str ''L/Upper-Case/C.png'' \<mapsto> Inr glyph_C,
               str ''L/Upper-Case/D.png'' \<mapsto> Inr glyph_D,
               str ''L/Upper-Case/U.png'' \<mapsto> Inl (UnidentifiedImageError (str ''cannot identify'')),
               str ''L/Upper-Case/E.png'' \<mapsto> Inl (OtherException (str ''Permission denied'')),
               str ''S/Exclamation.png'' \<mapsto> Inr glyph_B],
      open_missing = (\<lambda>p. FileNotFoundError (str ''No such file'') (Some p)),
      save_fault = (\<lambda>p. None),
      new_fault = (\<lambda>sz. None),
      log = []\<rparr>"

definition demo_now :: datetime where
  "demo_now = \<lparr>year = 2024, month = 3, day = 7, hour = 9, minute = 15, second = 0\<rparr>"

section \<open>Properties of the parts\<close>

lemma strip_empty: "strip env text = [] \<longleftrightarrow> list_all (isspace env) text"
proof -
  have "(\<forall>x\<in>set (dropWhile (isspace env) text). isspace env x) \<longleftrightarrow> dropWhile (isspace env) text = []"
  proof
    assume a: "\<forall>x\<in>set (dropWhile (isspace env) text). isspace env x"
    show "dropWhile (isspace env) text = []"
    proof (rule ccontr)
      assume n: "dropWhile (isspace env) text \<noteq> []"
      then have "\<not> isspace env (hd (dropWhile (isspace env) text))" by (rule hd_dropWhile)
      with a n show False by simp
    qed
  qed (auto dest: set_dropWhileD)
  then show ?thesis
    by (simp add: strip_def list_all_iff)
qed

lemma Image_new_log [simp]: "Image_new env (w\<lparr>log := l\<rparr>) sz color = Image_new env w sz color"
  by (simp add: Image_new_def)

lemma creatable_log [simp]: "creatable (w\<lparr>log := l\<rparr>) sz = creatable w sz"
  by (simp add: creatable_def)

lemma Image_new_ok: "creatable w sz \<Longrightarrow> Image_new env w sz color = Inr (filled sz color)"
  by (simp add: Image_new_def creatable_def)

lemma Image_new_fail: "\<not> creatable w sz \<Longrightarrow> \<exists>e. Image_new env w sz color = Inl e"
  by (auto simp: Image_new_def creatable_def)

lemma Image_new_Inr: "Image_new env w sz color = Inr g \<longleftrightarrow> creatable w sz \<and> g = filled sz color"
  by (auto simp: Image_new_def creatable_def split: option.splits)

lemma char_image_expl:
  "char_image env w c fp =
     (if c = space then (Image_new env w (SPACE_WIDTH, 1) transparent, w)
      else case character_target env c fp of
             None \<Rightarrow> (Inl (FileNotFoundError (not_found_text c) None), w)
           | Some p \<Rightarrow>
               (case files w p of
                  None \<Rightarrow> (Inl (FileNotFoundError (not_found_text c) None), w\<lparr>log := log w @ [Stat p]\<rparr>)
                | Some r \<Rightarrow> (r, w\<lparr>log := log w @ [Stat p, Open p]\<rparr>)))"
  by (simp add: char_image_def get_character_image_path_def os_path_isfile_def Image_open_def
      split: option.splits)

lemma char_outcome_expl:
  "char_outcome env w fp c =
     (if c = space then Image_new env w (SPACE_WIDTH, 1) transparent
      else case character_target env c fp of
             None \<Rightarrow> Inl (FileNotFoundError (not_found_text c) None)
           | Some p \<Rightarrow>
               (case files w p of
                  None \<Rightarrow> Inl (FileNotFoundError (not_found_text c) None)
                | Some r \<Rightarrow> r))"
  by (simp add: char_outcome_def char_image_expl split: option.splits)

lemma char_events_expl:
  "char_events env w fp c =
     (if c = space then []
      else case character_target env c fp of
             None \<Rightarrow> []
           | Some p \<Rightarrow> (if files w p = None then [Stat p] else [Stat p, Open p]))"
  by (simp add: char_events_def char_image_expl split: option.splits)

lemma char_image_eq:
  "char_image env w c fp = (char_outcome env w fp c, w\<lparr>log := log w @ char_events env w fp c\<rparr>)"
  by (simp add: char_outcome_expl char_events_expl char_image_expl split: option.splits)

lemma char_outcome_log [simp]:
  "char_outcome env (w\<lparr>log := l\<rparr>) fp c = char_outcome env w fp c"
  by (simp add: char_outcome_expl split: option.splits)

lemma char_events_log [simp]:
  "char_events env (w\<lparr>log := l\<rparr>) fp c = char_events env w fp c"
  by (simp add: char_events_expl split: option.splits)

lemma loads_log [simp]: "loads env (w\<lparr>log := l\<rparr>) fp c = loads env w fp c"
  by (simp add: loads_def)

lemma glyph_log [simp]: "glyph env (w\<lparr>log := l\<rparr>) fp c = glyph env w fp c"
  by (simp add: glyph_def)

lemma loads_outcome: "loads env w fp c \<Longrightarrow> char_outcome env w fp c = Inr (glyph env w fp c)"
  by (simp add: loads_def glyph_def split: sum.splits)

lemma not_loads_outcome: "\<not> loads env w fp c \<Longrightarrow> \<exists>e. char_outcome env w fp c = Inl e"
  by (simp add: loads_def split: sum.splits)

lemma load_char_images_ok:
  "\<forall>c\<in>set text. loads env w fp c \<Longrightarrow>
   load_char_images env fp text h imgs w =
     (Inr ((case h of
              None \<Rightarrow> (case text of [] \<Rightarrow> None | c # cs \<Rightarrow> Some (height (glyph env w fp c)))
            | Some x \<Rightarrow> Some x),
           (\<lambda>c. if c \<in> set text then Some (glyph env w fp c) else imgs c)),
      w\<lparr>log := log w @ concat (map (char_events env w fp) text)\<rparr>)"
proof (induction "text" arbitrary: h imgs w)
  case Nil
  then show ?case by (simp split: option.splits)
next
  case (Cons c cs)
  let ?w1 = "w\<lparr>log := log w @ char_events env w fp c\<rparr>"
  have step: "char_image env w c fp = (Inr (glyph env w fp c), ?w1)"
    using Cons.prems by (simp add: char_image_eq loads_outcome)
  have rest: "\<forall>c\<in>set cs. loads env ?w1 fp c" using Cons.prems by simp
  show ?case
    by (simp add: step Cons.IH [OF rest] fun_eq_iff split: option.splits)
qed

lemma load_char_images_fail:
  "\<forall>c\<in>set pre. loads env w fp c \<Longrightarrow> char_outcome env w fp c = Inl e \<Longrightarrow>
   load_char_images env fp (pre @ c # post) h imgs w =
     (Inl e, w\<lparr>log := log w @ concat (map (char_events env w fp) pre) @ char_events env w fp c\<rparr>)"
proof (induction pre arbitrary: h imgs w)
  case Nil
  then show ?case by (simp add: char_image_eq)
next
  case (Cons d ds)
  let ?w1 = "w\<lparr>log := log w @ char_events env w fp d\<rparr>"
  have step: "char_image env w d fp = (Inr (glyph env w fp d), ?w1)"
    using Cons.prems by (simp add: char_image_eq loads_outcome)
  have rest: "\<forall>c\<in>set ds. loads env ?w1 fp c" using Cons.prems by simp
  have bad: "char_outcome env ?w1 fp c = Inl e" using Cons.prems by simp
  show ?case
    by (simp add: step Cons.IH [OF rest bad])
qed

lemma char_list_ok:
  "\<forall>c\<in>set text. imgs c = Some (G c) \<Longrightarrow>
   char_list env imgs text =
     Inr (map (\<lambda>c. (G c, if c = space then SPACE_WIDTH else width (G c))) text)"
  by (induction "text") simp_all

lemma width_paste [simp]: "width (paste env img src box) = width img"
  by (simp add: paste_def)

lemma height_paste [simp]: "height (paste env img src box) = height img"
  by (simp add: paste_def)

lemma width_paste_chars [simp]: "width (paste_chars env img x cs) = width img"
  by (induction cs arbitrary: img x) auto

lemma height_paste_chars [simp]: "height (paste_chars env img x cs) = height img"
  by (induction cs arbitrary: img x) auto

lemma pix_paste_chars_left:
  "px < x \<Longrightarrow> pix (paste_chars env img x cs) px py = pix img px py"
proof (induction cs arbitrary: img x)
  case Nil
  then show ?case by simp
next
  case (Cons ga cs)
  obtain g a where ga: "ga = (g, a)" by (cases ga)
  have "pix (paste_chars env (paste env img g (x, 0)) (x + a) cs) px py
        = pix (paste env img g (x, 0)) px py"
    using Cons.prems by (intro Cons.IH) simp
  also have "\<dots> = pix img px py" using Cons.prems by (simp add: paste_def)
  finally show ?case by (simp add: ga)
qed

lemma pix_paste_chars_placed:
  assumes "\<forall>ga\<in>set pre. width (fst ga) \<le> snd ga"
    and "width g \<le> a"
    and "x + sum_list (map snd pre) \<le> px"
    and "px < x + sum_list (map snd pre) + width g"
    and "py < height g" and "px < width img" and "py < height img"
  shows "pix (paste_chars env img x (pre @ (g, a) # post)) px py
         = blend env (pix img px py) (pix g (px - (x + sum_list (map snd pre))) py)"
  using assms
proof (induction pre arbitrary: img x)
  case Nil
  have "pix (paste_chars env (paste env img g (x, 0)) (x + a) post) px py
        = pix (paste env img g (x, 0)) px py"
    using Nil.prems by (intro pix_paste_chars_left) simp
  also have "\<dots> = blend env (pix img px py) (pix g (px - x) py)"
    using Nil.prems by (simp add: paste_def)
  finally show ?case by simp
next
  case (Cons hb pre)
  obtain h b where hb: "hb = (h, b)" by (cases hb)
  let ?img = "paste env img h (x, 0)"
  have wb: "width h \<le> b" using Cons.prems(1) by (simp add: hb)
  have "pix (paste_chars env ?img (x + b) (pre @ (g, a) # post)) px py
        = blend env (pix ?img px py) (pix g (px - (x + b + sum_list (map snd pre))) py)"
    using Cons.prems by (intro Cons.IH) (simp_all add: hb add.assoc)
  moreover have "pix ?img px py = pix img px py"
    using Cons.prems(3) wb by (simp add: paste_def hb)
  ultimately show ?case by (simp add: hb add.assoc)
qed

lemma glyph_space:
  "loads env w fp space \<Longrightarrow> glyph env w fp space = filled (SPACE_WIDTH, 1) transparent"
proof -
  assume "loads env w fp space"
  from loads_outcome [OF this]
  have "Image_new env w (SPACE_WIDTH, 1) transparent = Inr (glyph env w fp space)"
    by (simp add: char_outcome_expl)
  then show ?thesis by (simp add: Image_new_Inr)
qed

lemma advance_width: "loads env w fp c \<Longrightarrow> advance env w fp c = width (glyph env w fp c)"
  by (auto simp: advance_def glyph_space filled_def)

lemma generate_image_body_empty:
  "generate_image_body env w [] filename fp = (Inl (OtherException (none_size_text env)), w)"
  by (simp add: generate_image_body_def)

lemma generate_image_body_loaded:
  assumes "text \<noteq> []" and "\<forall>c\<in>set text. loads env w fp c"
  shows "generate_image_body env w text filename fp =
           (let w1 = w\<lparr>log := log w @ concat (map (char_events env w fp) text)\<rparr>
            in case Image_new env w (canvas_size env w fp text) transparent of
                 Inl e \<Rightarrow> (Inl e, w1)
               | Inr img \<Rightarrow>
                   Image_save w1
                     (paste_chars env img 0
                        (map (\<lambda>c. (glyph env w fp c, advance env w fp c)) text))
                     (output_path env filename))"
proof -
  obtain c cs where tx: "text = c # cs" using assms(1) by (cases "text") auto
  let ?imgs = "\<lambda>c. if c \<in> set text then Some (glyph env w fp c) else None"
  have cl: "char_list env ?imgs text =
              Inr (map (\<lambda>c. (glyph env w fp c, advance env w fp c)) text)"
    unfolding advance_def by (rule char_list_ok) simp
  show ?thesis
    unfolding generate_image_body_def load_char_images_ok [OF assms(2)]
    by (simp add: cl canvas_size_def comp_def)
       (simp add: tx Let_def output_path_def cong: sum.case_cong)
qed

lemma generate_image_body_ok:
  assumes "text \<noteq> []" and "\<forall>c\<in>set text. loads env w fp c"
    and "creatable w (canvas_size env w fp text)"
  shows "generate_image_body env w text filename fp =
           Image_save (w\<lparr>log := log w @ concat (map (char_events env w fp) text)\<rparr>)
             (composed env w fp text) (output_path env filename)"
  by (simp add: generate_image_body_loaded [OF assms(1,2)] Image_new_ok [OF assms(3)]
      composed_def)

lemma generate_image_body_new_fault:
  assumes "text \<noteq> []" and "\<forall>c\<in>set text. loads env w fp c"
    and "Image_new env w (canvas_size env w fp text) transparent = Inl e"
  shows "generate_image_body env w text filename fp =
           (Inl e, w\<lparr>log := log w @ concat (map (char_events env w fp) text)\<rparr>)"
  by (simp add: generate_image_body_loaded [OF assms(1,2)] assms(3))

lemma generate_image_body_fail:
  assumes "\<forall>c\<in>set pre. loads env w fp c" and "char_outcome env w fp c = Inl e"
  shows "generate_image_body env w (pre @ c # post) filename fp =
           (Inl e, w\<lparr>log := log w @ concat (map (char_events env w fp) pre)
                                @ char_events env w fp c\<rparr>)"
  unfolding generate_image_body_def load_char_images_fail [OF assms]
  by simp

lemma first_failure:
  assumes "\<not> (\<forall>c\<in>set text. loads env w fp c)"
  obtains pre c post e where "text = pre @ c # post" and "\<forall>d\<in>set pre. loads env w fp d"
    and "char_outcome env w fp c = Inl e"
proof -
  from assms have "\<exists>c\<in>set text. \<not> loads env w fp c" by simp
  then obtain pre c post where t: "text = pre @ c # post" and c: "\<not> loads env w fp c"
    and p: "\<forall>d\<in>set pre. \<not> \<not> loads env w fp d"
    by (auto dest!: split_list_first_prop)
  from c obtain e where "char_outcome env w fp c = Inl e" by (auto dest: not_loads_outcome)
  with t p that show ?thesis by simp
qed

lemma render_ok:
  assumes "text \<noteq> []" and "\<forall>c\<in>set text. loads env w fp c"
    and "creatable w (canvas_size env w fp text)"
    and "save_fault w (output_path env filename) = None"
  shows "generate_image_with_filename env w text filename fp =
           ((Some filename, None),
            w\<lparr>files := (files w)(output_path env filename \<mapsto> Inr (composed env w fp text)),
              log := log w @ concat (map (char_events env w fp) text)
                     @ [Save (output_path env filename)]\<rparr>)"
  unfolding generate_image_with_filename_def generate_image_body_ok [OF assms(1,2,3)]
  using assms(4) by (simp add: Image_save_def)

lemma render_new_fault:
  assumes "text \<noteq> []" and "\<forall>c\<in>set text. loads env w fp c"
    and "Image_new env w (canvas_size env w fp text) transparent = Inl e"
  shows "generate_image_with_filename env w text filename fp =
           ((None, Some (error_description e)),
            w\<lparr>log := log w @ concat (map (char_events env w fp) text)\<rparr>)"
  unfolding generate_image_with_filename_def generate_image_body_new_fault [OF assms]
  by simp

lemma render_save_fault:
  assumes "text \<noteq> []" and "\<forall>c\<in>set text. loads env w fp c"
    and "creatable w (canvas_size env w fp text)"
    and "save_fault w (output_path env filename) = Some e"
  shows "generate_image_with_filename env w text filename fp =
           ((None, Some (error_description e)),
            w\<lparr>log := log w @ concat (map (char_events env w fp) text)
                     @ [Save (output_path env filename)]\<rparr>)"
  unfolding generate_image_with_filename_def generate_image_body_ok [OF assms(1,2,3)]
  using assms(4) by (simp add: Image_save_def)

lemma render_fail:
  assumes "\<forall>c\<in>set pre. loads env w fp c" and "char_outcome env w fp c = Inl e"
  shows "generate_image_with_filename env w (pre @ c # post) filename fp =
           ((None, Some (error_description e)),
            w\<lparr>log := log w @ concat (map (char_events env w fp) pre)
                     @ char_events env w fp c\<rparr>)"
  unfolding generate_image_with_filename_def generate_image_body_fail [OF assms]
  by simp

lemma render_empty:
  "generate_image_with_filename env w [] filename fp =
     ((None, Some (error_description (OtherException (none_size_text env)))), w)"
  by (simp add: generate_image_with_filename_def generate_image_body_empty)

lemma render_success_iff:
  "fst (generate_image_with_filename env w text filename fp) = (Some filename, None)
   \<longleftrightarrow> text \<noteq> [] \<and> (\<forall>c\<in>set text. loads env w fp c)
       \<and> creatable w (canvas_size env w fp text)
       \<and> save_fault w (output_path env filename) = None"
proof (cases "text = []")
  case True
  then show ?thesis by (simp add: render_empty)
next
  case ne: False
  show ?thesis
  proof (cases "\<forall>c\<in>set text. loads env w fp c")
    case all: True
    show ?thesis
    proof (cases "creatable w (canvas_size env w fp text)")
      case cr: True
      show ?thesis
      proof (cases "save_fault w (output_path env filename)")
        case None
        then show ?thesis using render_ok [OF ne all cr None] ne all cr by simp
      next
        case (Some e)
        then show ?thesis using render_save_fault [OF ne all cr Some] by simp
      qed
    next
      case False
      then obtain e where "Image_new env w (canvas_size env w fp text) transparent = Inl e"
        using Image_new_fail by blast
      from render_new_fault [OF ne all this, of filename] False show ?thesis by simp
    qed
  next
    case False
    then obtain pre c post e where t: "text = pre @ c # post"
      and p: "\<forall>d\<in>set pre. loads env w fp d" and c: "char_outcome env w fp c = Inl e"
      by (rule first_failure)
    from render_fail [OF p c, of post filename] False show ?thesis
      unfolding t by simp
  qed
qed

lemma no_save_char_events [simp]: "saved (char_events env w fp c) = []"
  by (cases "character_target env c fp") (simp_all add: saved_def char_events_expl)

lemma saved_append [simp]: "saved (xs @ ys) = saved xs @ saved ys"
  by (simp add: saved_def)

lemma opened_append [simp]: "opened (xs @ ys) = opened xs @ opened ys"
  by (simp add: opened_def)

lemma saved_Nil [simp]: "saved [] = []"
  by (simp add: saved_def)

lemma saved_concat_char_events [simp]: "saved (concat (map (char_events env w fp) text)) = []"
  by (induction "text") simp_all

lemma new_events_log [simp]: "new_events w (w\<lparr>files := f, log := log w @ evs\<rparr>) = evs"
  "new_events w (w\<lparr>log := log w @ evs\<rparr>) = evs"
  by (simp_all add: new_events_def)

lemma width_composed: "width (composed env w fp text) = sum_list (map (advance env w fp) text)"
  by (simp add: composed_def canvas_size_def filled_def)

lemma height_composed:
  "height (composed env w fp (c # cs)) = height (glyph env w fp c)"
  by (simp add: composed_def canvas_size_def filled_def)

lemma offset_le_total: "offset env w fp text i \<le> sum_list (map (advance env w fp) text)"
proof -
  have "sum_list (map (advance env w fp) text)
        = sum_list (map (advance env w fp) (take i text)) + sum_list (map (advance env w fp) (drop i text))"
    by (metis append_take_drop_id map_append sum_list_append)
  then show ?thesis by (simp add: offset_def)
qed

lemma offset_Suc:
  "i < length text \<Longrightarrow> offset env w fp text (Suc i) = offset env w fp text i + advance env w fp (text ! i)"
  by (simp add: offset_def take_Suc_conv_app_nth)

lemma offset_mono:
  "i \<le> j \<Longrightarrow> offset env w fp text i \<le> offset env w fp text j"
proof -
  assume "i \<le> j"
  then have "take j text = take i text @ take (j - i) (drop i text)"
    by (metis le_add_diff_inverse take_add)
  then show ?thesis by (simp add: offset_def)
qed

lemma composed_pixel:
  assumes all: "\<forall>c\<in>set text. loads env w fp c"
    and i: "i < length text"
    and dx: "dx < width (glyph env w fp (text ! i))"
    and dy: "dy < height (glyph env w fp (text ! i))"
    and dyc: "dy < height (composed env w fp text)"
  shows "pix (composed env w fp text) (offset env w fp text i + dx) dy
         = blend env transparent (pix (glyph env w fp (text ! i)) dx dy)"
proof -
  let ?f = "\<lambda>c. (glyph env w fp c, advance env w fp c)"
  let ?g = "glyph env w fp (text ! i)"
  let ?img = "filled (canvas_size env w fp text) transparent"
  have li: "loads env w fp (text ! i)" using all i by simp
  have split: "map ?f text = map ?f (take i text) @ (?g, advance env w fp (text ! i)) # map ?f (drop (Suc i) text)"
    using i by (metis (no_types, lifting) id_take_nth_drop list.simps(9) map_append)
  have off: "sum_list (map snd (map ?f (take i text))) = offset env w fp text i"
    by (simp add: offset_def comp_def)
  have comp: "composed env w fp text = paste_chars env ?img 0 (map ?f text)"
    by (simp add: composed_def)
  have hc: "height ?img = height (composed env w fp text)" by (simp add: comp)
  have wc: "width ?img = sum_list (map (advance env w fp) text)"
    by (simp add: canvas_size_def filled_def)
  have "offset env w fp text (Suc i) \<le> sum_list (map (advance env w fp) text)"
    by (rule offset_le_total)
  then have "offset env w fp text i + dx < sum_list (map (advance env w fp) text)"
    using dx i by (simp add: offset_Suc advance_width [OF li])
  then have inw: "offset env w fp text i + dx < width ?img"
    by (simp only: wc)
  have p1: "\<forall>ga\<in>set (map ?f (take i text)). width (fst ga) \<le> snd ga"
    using all by (auto dest: in_set_takeD simp: advance_width)
  have p2: "width ?g \<le> advance env w fp (text ! i)"
    by (simp add: advance_width [OF li])
  have p3: "0 + sum_list (map snd (map ?f (take i text))) \<le> offset env w fp text i + dx"
    unfolding off by simp
  have p4: "offset env w fp text i + dx < 0 + sum_list (map snd (map ?f (take i text))) + width ?g"
    unfolding off using dx by simp
  have p7: "dy < height ?img"
    using dyc by (simp only: hc)
  have "pix (paste_chars env ?img 0
               (map ?f (take i text) @ (?g, advance env w fp (text ! i)) # map ?f (drop (Suc i) text)))
          (offset env w fp text i + dx) dy
        = blend env (pix ?img (offset env w fp text i + dx) dy)
            (pix ?g (offset env w fp text i + dx - (0 + sum_list (map snd (map ?f (take i text))))) dy)"
    by (rule pix_paste_chars_placed [OF p1 p2 p3 p4 dy inw p7])
  then show ?thesis
    unfolding comp split [symmetric] off by (simp add: filled_def)
qed

lemma loads_iff:
  "loads env w fp c \<longleftrightarrow>
     (if c = space then new_fault w (SPACE_WIDTH, 1) = None
      else \<exists>p g. character_target env c fp = Some p \<and> files w p = Some (Inr g))"
  by (auto simp: loads_def char_outcome_expl Image_new_def SPACE_WIDTH_def PILLOW_MAX_WIDTH_def
      split: option.splits sum.splits)

lemma glyph_file:
  "c \<noteq> space \<Longrightarrow> character_target env c fp = Some p \<Longrightarrow> files w p = Some (Inr g)
   \<Longrightarrow> glyph env w fp c = g"
  by (simp add: glyph_def char_outcome_expl)

lemma output_image_render_ok [simp]:
  "output_image env
     (w\<lparr>files := (files w)(output_path env filename \<mapsto> Inr img), log := l\<rparr>) filename = Some img"
  by (simp add: output_image_def)

lemma length_strftime: "length (strftime t) = 15"
  by (simp add: strftime_def dec2_def dec4_def str_def)

lemma opened_Nil [simp]: "opened [] = []"
  by (simp add: opened_def)

lemma opened_Save [simp]: "opened [Save p] = []"
  by (simp add: opened_def)

lemma saved_Save [simp]: "saved [Save p] = [p]"
  by (simp add: saved_def)

lemma opened_char_events:
  "loads env w fp c \<Longrightarrow>
   map Some (opened (char_events env w fp c)) = (if c = space then [] else [character_target env c fp])"
  by (auto simp: loads_iff char_events_expl opened_def)

lemma opened_concat_char_events:
  "\<forall>c\<in>set text. loads env w fp c \<Longrightarrow>
   map Some (opened (concat (map (char_events env w fp) text)))
   = map (\<lambda>c. character_target env c fp) (filter (\<lambda>c. c \<noteq> space) text)"
  by (induction "text") (simp_all add: opened_char_events)

lemma unmapped_outcome:
  assumes "c \<noteq> space" "\<not> isalpha env c" "\<not> isdigit env c" "SPECIAL_CHARACTERS c = None"
    and "files w (path_join env S [str ''.png'']) = None"
  shows "char_outcome env w (L, N, S) c = Inl (FileNotFoundError (not_found_text c) None)"
  using assms by (simp add: char_outcome_expl character_target_def)

lemma render_fail_frame:
  assumes "\<not> (\<forall>c\<in>set text. loads env w fp c)"
  shows "\<exists>msg evs. generate_image_with_filename env w text filename fp
                     = ((None, Some msg), w\<lparr>log := log w @ evs\<rparr>) \<and> saved evs = []"
proof -
  from assms obtain pre c post e where t: "text = pre @ c # post"
    and p: "\<forall>d\<in>set pre. loads env w fp d" and c: "char_outcome env w fp c = Inl e"
    by (rule first_failure)
  show ?thesis
    unfolding t render_fail [OF p c]
    by (intro exI [of _ "error_description e"]
          exI [of _ "concat (map (char_events env w fp) pre) @ char_events env w fp c"]) simp
qed

lemma render_ok_parts:
  assumes "fst (generate_image_with_filename env w text filename fp) = (Some filename, None)"
  shows "text \<noteq> []" and "\<forall>c\<in>set text. loads env w fp c"
    and "creatable w (canvas_size env w fp text)"
    and "generate_image_with_filename env w text filename fp =
           ((Some filename, None),
            w\<lparr>files := (files w)(output_path env filename \<mapsto> Inr (composed env w fp text)),
              log := log w @ concat (map (char_events env w fp) text)
                     @ [Save (output_path env filename)]\<rparr>)"
proof -
  from assms show ne: "text \<noteq> []" and all: "\<forall>c\<in>set text. loads env w fp c"
    and cr: "creatable w (canvas_size env w fp text)"
    by (simp_all add: render_success_iff)
  from assms have "save_fault w (output_path env filename) = None"
    by (simp add: render_success_iff)
  with ne all cr show "generate_image_with_filename env w text filename fp =
           ((Some filename, None),
            w\<lparr>files := (files w)(output_path env filename \<mapsto> Inr (composed env w fp text)),
              log := log w @ concat (map (char_events env w fp) text)
                     @ [Save (output_path env filename)]\<rparr>)"
    by (rule render_ok)
qed

lemma offset_before:
  assumes "\<forall>c\<in>set text. loads env w fp c" and "i < j" and "j \<le> length text"
  shows "offset env w fp text i + width (glyph env w fp (text ! i)) \<le> offset env w fp text j"
proof -
  from assms have i: "i < length text" by simp
  with assms(1) have "loads env w fp (text ! i)" by simp
  with i have "offset env w fp text i + width (glyph env w fp (text ! i)) = offset env w fp text (Suc i)"
    by (simp add: offset_Suc advance_width)
  also have "\<dots> \<le> offset env w fp text j"
    using assms(2) by (intro offset_mono) simp
  finally show ?thesis .
qed

text \<open>
  The canvas of two characters, pixel by pixel, and when the canvases of the two orders
  are the same image.
\<close>

lemma image_eq_iff:
  "(a :: image) = b \<longleftrightarrow> width a = width b \<and> height a = height b \<and> pix a = pix b"
  by (cases a, cases b) auto

lemma composed_pair_pix:
  assumes "loads env w fp a" "loads env w fp b"
  shows "pix (composed env w fp [a, b]) x y =
           (if x < width (glyph env w fp a) \<and> y < height (glyph env w fp a)
            then blend env transparent (pix (glyph env w fp a) x y)
            else if width (glyph env w fp a) \<le> x
                    \<and> x < width (glyph env w fp a) + width (glyph env w fp b)
                    \<and> y < height (glyph env w fp b) \<and> y < height (glyph env w fp a)
            then blend env transparent (pix (glyph env w fp b) (x - width (glyph env w fp a)) y)
            else transparent)"
  using assms
  by (auto simp: composed_def canvas_size_def advance_width paste_def filled_def)

lemma composed_swap_iff:
  assumes "loads env w fp a" "loads env w fp b"
  shows "composed env w fp [a, b] = composed env w fp [b, a] \<longleftrightarrow>
           height (glyph env w fp a) = height (glyph env w fp b)
           \<and> (\<forall>x<width (glyph env w fp a) + width (glyph env w fp b).
                \<forall>y<height (glyph env w fp a).
                  (if x < width (glyph env w fp a)
                   then blend env transparent (pix (glyph env w fp a) x y)
                   else blend env transparent (pix (glyph env w fp b) (x - width (glyph env w fp a)) y))
                  = (if x < width (glyph env w fp b)
                     then blend env transparent (pix (glyph env w fp b) x y)
                     else blend env transparent
                            (pix (glyph env w fp a) (x - width (glyph env w fp b)) y)))"
    (is "?L \<longleftrightarrow> ?H \<and> ?P")
proof
  assume eq: ?L
  then have h: ?H
    by (simp add: image_eq_iff height_composed)
  have ?P
  proof (intro allI impI)
    fix x y
    assume x: "x < width (glyph env w fp a) + width (glyph env w fp b)"
      and y: "y < height (glyph env w fp a)"
    from eq have "pix (composed env w fp [a, b]) x y = pix (composed env w fp [b, a]) x y"
      by simp
    then show "(if x < width (glyph env w fp a)
                   then blend env transparent (pix (glyph env w fp a) x y)
                   else blend env transparent (pix (glyph env w fp b) (x - width (glyph env w fp a)) y))
                  = (if x < width (glyph env w fp b)
                     then blend env transparent (pix (glyph env w fp b) x y)
                     else blend env transparent
                            (pix (glyph env w fp a) (x - width (glyph env w fp b)) y))"
      using x y h
      by (simp add: composed_pair_pix [OF assms] composed_pair_pix [OF assms(2,1)] split: if_splits)
  qed
  with h show "?H \<and> ?P" by simp
next
  assume hp: "?H \<and> ?P"
  then have h: ?H and p: ?P by simp_all
  have "pix (composed env w fp [a, b]) = pix (composed env w fp [b, a])"
  proof (intro ext)
    fix x y
    show "pix (composed env w fp [a, b]) x y = pix (composed env w fp [b, a]) x y"
    proof (cases "x < width (glyph env w fp a) + width (glyph env w fp b) \<and> y < height (glyph env w fp a)")
      case True
      with p [rule_format, of x y] h show ?thesis
        by (simp add: composed_pair_pix [OF assms] composed_pair_pix [OF assms(2,1)] split: if_splits)
    next
      case False
      with h show ?thesis
        by (auto simp: composed_pair_pix [OF assms] composed_pair_pix [OF assms(2,1)])
    qed
  qed
  with h show ?L
    using assms by (simp add: image_eq_iff height_composed width_composed add.commute)
qed

text \<open>The concrete instance.\<close>

lemmas demo_defs = demo_env_def demo_world_def demo_fonts_def str_def space_def
  character_target_def ascii_letter_def ascii_digit_def SPECIAL_CHARACTERS_def
  output_path_def DESKTOP_PATH_def

lemma demo_glyphs:
  "glyph demo_env demo_world demo_fonts 65 = glyph_A"
  "glyph demo_env demo_world demo_fonts 66 = glyph_B"
  "glyph demo_env demo_world demo_fonts 67 = glyph_C"
  "glyph demo_env demo_world demo_fonts 68 = glyph_D"
  "glyph demo_env demo_world demo_fonts 33 = glyph_B"
  by (simp_all add: glyph_def char_outcome_expl demo_defs)

lemma demo_loads:
  "loads demo_env demo_world demo_fonts 65" "loads demo_env demo_world demo_fonts 66"
  "loads demo_env demo_world demo_fonts 67" "loads demo_env demo_world demo_fonts 68"
  "loads demo_env demo_world demo_fonts 33" "loads demo_env demo_world demo_fonts 32"
  by (simp_all add: loads_iff demo_defs)

lemma demo_glyph_space:
  "glyph demo_env demo_world demo_fonts 32 = filled (SPACE_WIDTH, 1) transparent"
  using glyph_space [of demo_env demo_world demo_fonts] demo_loads(6) by (simp add: space_def)

lemma demo_blend: "blend demo_env = pillow_blend"
  by (simp add: demo_env_def)

lemma demo_save: "save_fault demo_world p = None"
  by (simp add: demo_world_def)

lemma demo_creatable: "creatable demo_world sz \<longleftrightarrow> fst sz \<le> PILLOW_MAX_WIDTH"
  by (simp add: creatable_def demo_world_def)

lemma demo_output_path: "output_path demo_env (str ''o.png'') = str ''/home/user/Desktop/o.png''"
  by (simp add: demo_defs)

lemma demo_advance:
  "advance demo_env demo_world demo_fonts 65 = 1" "advance demo_env demo_world demo_fonts 66 = 2"
  "advance demo_env demo_world demo_fonts 67 = 1" "advance demo_env demo_world demo_fonts 68 = 1"
  "advance demo_env demo_world demo_fonts 33 = 2" "advance demo_env demo_world demo_fonts 32 = 30"
  by (simp_all add: advance_def space_def SPACE_WIDTH_def demo_glyphs
      glyph_A_def glyph_B_def glyph_C_def glyph_D_def)

lemma demo_render_iff:
  "fst (generate_image_with_filename demo_env demo_world text (str ''o.png'') demo_fonts)
     = (Some (str ''o.png''), None)
   \<longleftrightarrow> text \<noteq> [] \<and> (\<forall>c\<in>set text. loads demo_env demo_world demo_fonts c)
       \<and> sum_list (map (advance demo_env demo_world demo_fonts) text) \<le> PILLOW_MAX_WIDTH"
  by (simp add: render_success_iff demo_save demo_creatable canvas_size_def)

lemma pillow_blend_opaque:
  "pillow_blend transparent red = red" "pillow_blend transparent blue = blue"
  by (simp_all add: pillow_blend_def transparent_def red_def blue_def blend8_def)

lemma red_not_blue: "red \<noteq> blue"
  by (simp add: red_def blue_def)

lemma spaces_canvas_size:
  assumes "text \<noteq> []" and "set text \<subseteq> {space}" and "loads env w fp space"
  shows "canvas_size env w fp text = (SPACE_WIDTH * length text, 1)"
proof -
  from assms(2) have "sum_list (map (advance env w fp) text) = SPACE_WIDTH * length text"
    by (induction "text") (simp_all add: advance_def)
  moreover from assms(1,2) obtain cs where "text = space # cs" by (cases "text") auto
  ultimately show ?thesis
    using assms(3) by (simp add: canvas_size_def glyph_space filled_def)
qed

text \<open>A text whose characters load and whose advance widths exceed Pillow's limit is refused.\<close>

lemma render_too_wide:
  assumes "text \<noteq> []" and "\<forall>c\<in>set text. loads env w fp c"
    and "PILLOW_MAX_WIDTH < sum_list (map (advance env w fp) text)"
  shows "fst (generate_image_with_filename env w text filename fp)
         = (None, Some (error_description
                          (OtherException (size_error_text env (canvas_size env w fp text)))))"
proof -
  have "Image_new env w (canvas_size env w fp text) transparent
        = Inl (OtherException (size_error_text env (canvas_size env w fp text)))"
    using assms(3) by (simp add: Image_new_def canvas_size_def)
  from render_new_fault [OF assms(1,2) this] show ?thesis by simp
qed

section \<open>The claims\<close>

subsection \<open>C1: the width of the canvas\<close>

text \<open>
  C1, as amended. For every non-empty text in which each character other than the space
  has a glyph asset (the path built for it holds a decodable image) and the placeholder
  of the space can be created, when the sum of the advance widths is at most Pillow's
  limit on the width of an image, the canvas can be allocated and saving to the output
  path does not fail, the render succeeds and the width of the saved canvas is the sum,
  in text order, of the advance widths: the width of the glyph for a character other
  than the space, \<open>SPACE_WIDTH\<close> for each space.
\<close>

theorem canvas_width_sum_of_advances:
  assumes "text \<noteq> []"
    and "\<forall>c\<in>set text.
           if c = space then new_fault w (SPACE_WIDTH, 1) = None
           else \<exists>p g. character_target env c fp = Some p \<and> files w p = Some (Inr g)"
    and "sum_list (map (advance env w fp) text) \<le> PILLOW_MAX_WIDTH"
    and "new_fault w (canvas_size env w fp text) = None"
    and "save_fault w (output_path env filename) = None"
  shows "fst (generate_image_with_filename env w text filename fp) = (Some filename, None)
         \<and> (\<exists>canvas.
               output_image env (snd (generate_image_with_filename env w text filename fp)) filename
                 = Some canvas
               \<and> width canvas = sum_list (map (advance env w fp) text))"
proof -
  have all: "\<forall>c\<in>set text. loads env w fp c" using assms(2) by (simp add: loads_iff)
  have cr: "creatable w (canvas_size env w fp text)"
    using assms(3,4) by (simp add: creatable_def canvas_size_def)
  from render_ok [OF assms(1) all cr assms(5)] show ?thesis
    by (simp add: width_composed)
qed

text \<open>
  On the text \<open>A B!\<close> the canvas is 35 pixels wide: 1 for \<open>A\<close>, 30 for the space, 2 for
  \<open>B\<close> and 2 for \<open>!\<close>.
\<close>

theorem canvas_width_sum_of_advances_witness:
  "fst (generate_image_with_filename demo_env demo_world (str ''A B!'') (str ''o.png'') demo_fonts)
     = (Some (str ''o.png''), None)
   \<and> (\<exists>canvas.
         output_image demo_env
           (snd (generate_image_with_filename demo_env demo_world (str ''A B!'') (str ''o.png'')
                   demo_fonts)) (str ''o.png'') = Some canvas
         \<and> width canvas = 35)"
proof -
  have t: "str ''A B!'' = [65, 32, 66, 33]" by (simp add: str_def)
  have adv: "sum_list (map (advance demo_env demo_world demo_fonts) [65, 32, 66, 33]) = 35"
    by (simp add: demo_advance)
  have ne: "[65, 32, 66, 33 :: nat] \<noteq> []" by simp
  have ex: "\<forall>c\<in>set [65, 32, 66, 33].
           if c = space then new_fault demo_world (SPACE_WIDTH, 1) = None
           else \<exists>p g. character_target demo_env c demo_fonts = Some p
                       \<and> files demo_world p = Some (Inr g)"
    by (simp add: demo_defs)
  have bd: "sum_list (map (advance demo_env demo_world demo_fonts) [65, 32, 66, 33]) \<le> PILLOW_MAX_WIDTH"
    unfolding adv by (simp add: PILLOW_MAX_WIDTH_def)
  have nf: "new_fault demo_world (canvas_size demo_env demo_world demo_fonts [65, 32, 66, 33]) = None"
    by (simp add: demo_world_def)
  have sv: "save_fault demo_world (output_path demo_env (str ''o.png'')) = None"
    by (rule demo_save)
  show ?thesis
    using canvas_width_sum_of_advances [OF ne ex bd nf sv] unfolding t by (simp only: adv)
qed

text \<open>
  The empty text is made of the allowed characters only, and its render fails: no
  character sets \<open>img_height\<close>, and \<open>Image.new\<close> rejects the height \<open>None\<close>.
\<close>

theorem empty_text_not_composed:
  "generate_image_with_filename demo_env demo_world [] (str ''o.png'') demo_fonts
   = ((None, Some (str ''An unexpected error occurred: '' @ none_size_text demo_env @ str ''.'')),
      demo_world)"
  by (simp add: render_empty error_description_def)

subsection \<open>C2: the height of the canvas\<close>

text \<open>
  C2. For every non-empty text that is rendered, the height of the saved canvas is the
  height of the image obtained for the first character: 1 when the text starts with a
  space, the height of the asset at the path built for that character otherwise. The
  characters after the first have no part in it.
\<close>

theorem canvas_height_first_character:
  assumes "fst (generate_image_with_filename env w (c # cs) filename fp) = (Some filename, None)"
  shows "\<exists>canvas.
           output_image env (snd (generate_image_with_filename env w (c # cs) filename fp)) filename
             = Some canvas
           \<and> (if c = space then height canvas = 1
              else \<exists>p g. character_target env c fp = Some p \<and> files w p = Some (Inr g)
                         \<and> height canvas = height g)"
proof -
  from assms have all: "\<forall>d\<in>set (c # cs). loads env w fp d"
    and sv: "save_fault w (output_path env filename) = None"
    and cr: "creatable w (canvas_size env w fp (c # cs))"
    by (simp_all add: render_success_iff)
  have ne: "c # cs \<noteq> []" by simp
  have out: "output_image env (snd (generate_image_with_filename env w (c # cs) filename fp)) filename
             = Some (composed env w fp (c # cs))"
    by (simp add: render_ok [OF ne all cr sv])
  show ?thesis
  proof (cases "c = space")
    case True
    with all have "glyph env w fp c = filled (SPACE_WIDTH, 1) transparent"
      by (simp add: glyph_space)
    with True out show ?thesis
      by (simp add: height_composed filled_def)
  next
    case False
    from all have "loads env w fp c" by simp
    with False obtain p g where pg: "character_target env c fp = Some p" "files w p = Some (Inr g)"
      by (auto simp: loads_iff)
    with False have "glyph env w fp c = g" by (simp add: glyph_file)
    with pg False show ?thesis by (simp add: out height_composed)
  qed
qed

text \<open>
  The text \<open>" A"\<close> gives a canvas of height 1, although the glyph of \<open>A\<close> is 2 high; \<open>DA\<close>
  gives the height 3 of the glyph of \<open>D\<close>, and \<open>AD\<close> the height 2 of the glyph of \<open>A\<close>.
\<close>

theorem canvas_height_first_character_witness:
  "(\<exists>canvas.
      output_image demo_env
        (snd (generate_image_with_filename demo_env demo_world (str '' A'') (str ''o.png'') demo_fonts))
        (str ''o.png'') = Some canvas
      \<and> height canvas = 1)
   \<and> (\<exists>canvas.
      output_image demo_env
        (snd (generate_image_with_filename demo_env demo_world (str ''DA'') (str ''o.png'') demo_fonts))
        (str ''o.png'') = Some canvas
      \<and> height canvas = 3)
   \<and> (\<exists>canvas.
      output_image demo_env
        (snd (generate_image_with_filename demo_env demo_world (str ''AD'') (str ''o.png'') demo_fonts))
        (str ''o.png'') = Some canvas
      \<and> height canvas = 2)"
proof -
  have t: "str '' A'' = [32, 65]" "str ''DA'' = [68, 65]" "str ''AD'' = [65, 68]"
    by (simp_all add: str_def)
  have ok: "fst (generate_image_with_filename demo_env demo_world [32, 65] (str ''o.png'') demo_fonts)
              = (Some (str ''o.png''), None)"
    "fst (generate_image_with_filename demo_env demo_world [68, 65] (str ''o.png'') demo_fonts)
              = (Some (str ''o.png''), None)"
    "fst (generate_image_with_filename demo_env demo_world [65, 68] (str ''o.png'') demo_fonts)
              = (Some (str ''o.png''), None)"
    by (simp_all add: demo_render_iff demo_loads demo_advance PILLOW_MAX_WIDTH_def)
  have tg: "character_target demo_env 68 demo_fonts = Some (str ''L/Upper-Case/D.png'')"
    "character_target demo_env 65 demo_fonts = Some (str ''L/Upper-Case/A.png'')"
    by (simp_all add: demo_defs)
  have fl: "files demo_world (str ''L/Upper-Case/D.png'') = Some (Inr glyph_D)"
    "files demo_world (str ''L/Upper-Case/A.png'') = Some (Inr glyph_A)"
    by (simp_all add: demo_world_def str_def)
  have h: "height glyph_D = 3" "height glyph_A = 2" by (simp_all add: glyph_D_def glyph_A_def)
  have s: "(32 :: nat) = space" "68 \<noteq> space" "65 \<noteq> space" by (simp_all add: space_def)
  from canvas_height_first_character [OF ok(1)] have 1: "\<exists>canvas.
      output_image demo_env
        (snd (generate_image_with_filename demo_env demo_world [32, 65] (str ''o.png'') demo_fonts))
        (str ''o.png'') = Some canvas \<and> height canvas = 1"
    by (simp add: s(1))
  from canvas_height_first_character [OF ok(2)] have 2: "\<exists>canvas.
      output_image demo_env
        (snd (generate_image_with_filename demo_env demo_world [68, 65] (str ''o.png'') demo_fonts))
        (str ''o.png'') = Some canvas \<and> height canvas = 3"
    by (auto simp: s tg fl h)
  from canvas_height_first_character [OF ok(3)] have 3: "\<exists>canvas.
      output_image demo_env
        (snd (generate_image_with_filename demo_env demo_world [65, 68] (str ''o.png'') demo_fonts))
        (str ''o.png'') = Some canvas \<and> height canvas = 2"
    by (auto simp: s tg fl h)
  from 1 2 3 show ?thesis unfolding t by simp
qed

subsection \<open>C3: a character without a glyph\<close>

text \<open>
  C3, as amended. For every text that contains a character other than the space that is
  not alphabetic, not a digit and not in the table of special characters, when no file is
  at the path built for it, the render fails with an error description, writes no file
  and attempts no save. The error is that of the first character, in the order of the
  text, whose image cannot be obtained: there is such a character, and the description
  returned is the one the handlers give for the exception raised for it. It is the
  \<open>FileNotFoundError\<close> naming the unmapped character itself when every character before
  one of its occurrences loads.
\<close>

theorem unmapped_character_fails:
  assumes "c \<in> set text" and "c \<noteq> space" and "\<not> isalpha env c" and "\<not> isdigit env c"
    and "SPECIAL_CHARACTERS c = None"
    and "files w (path_join env S [str ''.png'']) = None"
  shows "(\<exists>pre d post e.
            text = pre @ d # post \<and> (\<forall>x\<in>set pre. loads env w (L, N, S) x)
            \<and> char_outcome env w (L, N, S) d = Inl e
            \<and> fst (generate_image_with_filename env w text filename (L, N, S))
                = (None, Some (error_description e)))
         \<and> (\<forall>pre d post e.
              text = pre @ d # post \<and> (\<forall>x\<in>set pre. loads env w (L, N, S) x)
              \<and> char_outcome env w (L, N, S) d = Inl e \<longrightarrow>
              fst (generate_image_with_filename env w text filename (L, N, S))
                = (None, Some (error_description e)))
         \<and> files (snd (generate_image_with_filename env w text filename (L, N, S))) = files w
         \<and> saved (new_events w (snd (generate_image_with_filename env w text filename (L, N, S)))) = []
         \<and> (\<forall>pre post. text = pre @ c # post \<and> (\<forall>d\<in>set pre. loads env w (L, N, S) d) \<longrightarrow>
              fst (generate_image_with_filename env w text filename (L, N, S))
                = (None, Some (not_found_text c)))"
proof -
  let ?r = "generate_image_with_filename env w text filename (L, N, S)"
  have bad: "char_outcome env w (L, N, S) c = Inl (FileNotFoundError (not_found_text c) None)"
    using assms(2-6) by (rule unmapped_outcome)
  then have "\<not> loads env w (L, N, S) c" by (simp add: loads_def)
  with assms(1) have nl: "\<not> (\<forall>c\<in>set text. loads env w (L, N, S) c)" by auto
  then obtain pre d post e where t: "text = pre @ d # post"
    and p: "\<forall>x\<in>set pre. loads env w (L, N, S) x"
    and d: "char_outcome env w (L, N, S) d = Inl e"
    by (rule first_failure)
  have first: "\<exists>pre d post e.
            text = pre @ d # post \<and> (\<forall>x\<in>set pre. loads env w (L, N, S) x)
            \<and> char_outcome env w (L, N, S) d = Inl e
            \<and> fst ?r = (None, Some (error_description e))"
    using t p d render_fail [OF p d, of post filename]
    by (intro exI [of _ pre] exI [of _ d] exI [of _ post] exI [of _ e]) simp
  have every: "\<forall>pre d post e.
              text = pre @ d # post \<and> (\<forall>x\<in>set pre. loads env w (L, N, S) x)
              \<and> char_outcome env w (L, N, S) d = Inl e \<longrightarrow>
              fst ?r = (None, Some (error_description e))"
    by (auto simp: render_fail)
  from every bad have named: "\<forall>pre post. text = pre @ c # post
      \<and> (\<forall>d\<in>set pre. loads env w (L, N, S) d) \<longrightarrow> fst ?r = (None, Some (not_found_text c))"
    by (auto simp: error_description_def)
  from render_fail_frame [OF nl, of filename] have frame: "files (snd ?r) = files w"
    "saved (new_events w (snd ?r)) = []"
    by auto
  from first every frame named show ?thesis by blast
qed

text \<open>
  On \<open>A@\<close> the glyph of \<open>A\<close> loads and the error names \<open>@\<close>; on \<open>U@\<close> the file of \<open>U\<close>
  cannot be identified, and the error is that one.
\<close>

theorem unmapped_character_fails_witness:
  "fst (generate_image_with_filename demo_env demo_world (str ''A@'') (str ''o.png'') demo_fonts)
     = (None, Some (not_found_text 64))
   \<and> files (snd (generate_image_with_filename demo_env demo_world (str ''A@'') (str ''o.png'')
                   demo_fonts)) = files demo_world
   \<and> fst (generate_image_with_filename demo_env demo_world (str ''U@'') (str ''o.png'') demo_fonts)
     = (None, Some (str ''Error: Unsupported image format''))"
proof -
  have h: "64 \<noteq> space" "\<not> isalpha demo_env 64" "\<not> isdigit demo_env 64"
    "SPECIAL_CHARACTERS 64 = None"
    "files demo_world (path_join demo_env (str ''S'') [str ''.png'']) = None"
    by (simp_all add: demo_defs)
  have m: "64 \<in> set (str ''A@'')" "64 \<in> set (str ''U@'')" by (simp_all add: str_def)
  have t: "str ''A@'' = str ''A'' @ 64 # []" "str ''U@'' = [] @ 85 # str ''@''"
    by (simp_all add: str_def)
  have l: "\<forall>d\<in>set (str ''A''). loads demo_env demo_world (str ''L'', str ''N'', str ''S'') d"
    using demo_loads(1) by (simp add: str_def demo_fonts_def)
  have u: "char_outcome demo_env demo_world (str ''L'', str ''N'', str ''S'') 85
           = Inl (UnidentifiedImageError (str ''cannot identify''))"
    by (simp add: char_outcome_expl demo_defs)
  note a = unmapped_character_fails [OF m(1) h, where filename = "str ''o.png''"
      and L = "str ''L''" and N = "str ''N''"]
  note b = unmapped_character_fails [OF m(2) h, where filename = "str ''o.png''"
      and L = "str ''L''" and N = "str ''N''"]
  have 1: "fst (generate_image_with_filename demo_env demo_world (str ''A@'')
      (str ''o.png'') (str ''L'', str ''N'', str ''S'')) = (None, Some (not_found_text 64))"
    by (rule a [THEN conjunct2, THEN conjunct2, THEN conjunct2, THEN conjunct2, rule_format,
          of "str ''A''" "[]"]) (simp add: t(1) [symmetric] l)
  have 2: "files (snd (generate_image_with_filename demo_env demo_world (str ''A@'')
      (str ''o.png'') (str ''L'', str ''N'', str ''S''))) = files demo_world"
    by (rule a [THEN conjunct2, THEN conjunct2, THEN conjunct1])
  have "fst (generate_image_with_filename demo_env demo_world (str ''U@'')
      (str ''o.png'') (str ''L'', str ''N'', str ''S''))
      = (None, Some (error_description (UnidentifiedImageError (str ''cannot identify''))))"
  proof (rule b [THEN conjunct2, THEN conjunct1, rule_format, of "[]" 85 "str ''@''"])
    show "str ''U@'' = [] @ 85 # str ''@''
          \<and> (\<forall>x\<in>set []. loads demo_env demo_world (str ''L'', str ''N'', str ''S'') x)
          \<and> char_outcome demo_env demo_world (str ''L'', str ''N'', str ''S'') 85
              = Inl (UnidentifiedImageError (str ''cannot identify''))"
      using t(2) u by simp
  qed
  then have 3: "fst (generate_image_with_filename demo_env demo_world (str ''U@'')
      (str ''o.png'') (str ''L'', str ''N'', str ''S''))
      = (None, Some (str ''Error: Unsupported image format''))"
    by (simp add: error_description_def)
  from 1 2 3 show ?thesis by (simp add: demo_fonts_def)
qed

text \<open>
  On \<open>Z@\<close>, where \<open>Z\<close> has no asset either, the error names \<open>Z\<close> and not the unmapped
  character \<open>@\<close>.
\<close>

theorem earlier_failure_named_instead:
  "64 \<in> set (str ''Z@'') \<and> 64 \<noteq> space \<and> \<not> isalpha demo_env 64 \<and> \<not> isdigit demo_env 64
   \<and> SPECIAL_CHARACTERS 64 = None \<and> files demo_world (str ''S/.png'') = None
   \<and> fst (generate_image_with_filename demo_env demo_world (str ''Z@'') (str ''o.png'') demo_fonts)
       = (None, Some (not_found_text 90))
   \<and> not_found_text 90 \<noteq> not_found_text 64"
proof -
  have z: "char_outcome demo_env demo_world demo_fonts 90
           = Inl (FileNotFoundError (not_found_text 90) None)"
    by (simp add: char_outcome_expl demo_defs)
  have t: "str ''Z@'' = [] @ 90 # str ''@''" by (simp add: str_def)
  have "generate_image_with_filename demo_env demo_world ([] @ 90 # str ''@'') (str ''o.png'') demo_fonts
        = ((None, Some (error_description (FileNotFoundError (not_found_text 90) None))),
           demo_world\<lparr>log := log demo_world
              @ concat (map (char_events demo_env demo_world demo_fonts) [])
              @ char_events demo_env demo_world demo_fonts 90\<rparr>)"
    by (rule render_fail [OF _ z]) simp
  then have "fst (generate_image_with_filename demo_env demo_world (str ''Z@'') (str ''o.png'') demo_fonts)
       = (None, Some (not_found_text 90))"
    unfolding t by (simp add: error_description_def)
  then show ?thesis
    by (simp add: demo_defs not_found_text_def)
qed

subsection \<open>C4: one read for each occurrence\<close>

text \<open>
  C4, as amended. A render that succeeds opens one asset for each occurrence of a
  character other than the space, in the order of the text, so that a character occurring
  \<open>n\<close> times is read \<open>n\<close> times; and the glyph is in the output at every occurrence: inside
  the canvas, the pixels of its box at the offset of the occurrence are the glyph's,
  blended onto the transparent canvas.
\<close>

theorem glyph_opened_at_every_occurrence:
  assumes "fst (generate_image_with_filename env w text filename fp) = (Some filename, None)"
  shows "map Some (opened (new_events w (snd (generate_image_with_filename env w text filename fp))))
           = map (\<lambda>c. character_target env c fp) (filter (\<lambda>c. c \<noteq> space) text)
         \<and> (\<exists>canvas.
               output_image env (snd (generate_image_with_filename env w text filename fp)) filename
                 = Some canvas
               \<and> (\<forall>i<length text.
                    \<forall>dx<width (glyph env w fp (text ! i)).
                      \<forall>dy<height (glyph env w fp (text ! i)).
                        dy < height canvas \<longrightarrow>
                        pix canvas (offset env w fp text i + dx) dy
                          = blend env transparent (pix (glyph env w fp (text ! i)) dx dy)))"
proof -
  note r = render_ok_parts [OF assms]
  show ?thesis
    by (simp add: r(4) opened_concat_char_events [OF r(2)] composed_pixel [OF r(2)])
qed

theorem glyph_opened_at_every_occurrence_witness:
  "opened (new_events demo_world
            (snd (generate_image_with_filename demo_env demo_world (str ''AA'') (str ''o.png'') demo_fonts)))
     = [str ''L/Upper-Case/A.png'', str ''L/Upper-Case/A.png'']
   \<and> (\<exists>canvas.
         output_image demo_env
           (snd (generate_image_with_filename demo_env demo_world (str ''AA'') (str ''o.png'') demo_fonts))
           (str ''o.png'') = Some canvas
         \<and> pix canvas 0 0 = pillow_blend transparent red
         \<and> pix canvas 1 0 = pillow_blend transparent red)"
proof -
  have t: "str ''AA'' = [65, 65]" by (simp add: str_def)
  have ok: "fst (generate_image_with_filename demo_env demo_world [65, 65] (str ''o.png'') demo_fonts)
            = (Some (str ''o.png''), None)"
    by (simp add: demo_render_iff demo_loads demo_advance PILLOW_MAX_WIDTH_def)
  have tg: "character_target demo_env 65 demo_fonts = Some (str ''L/Upper-Case/A.png'')"
    by (simp add: demo_defs)
  have off: "offset demo_env demo_world demo_fonts [65, 65] 0 = 0"
    "offset demo_env demo_world demo_fonts [65, 65] (Suc 0) = 1"
    by (simp_all add: offset_def demo_advance)
  from glyph_opened_at_every_occurrence [OF ok]
  obtain canvas where op: "map Some (opened (new_events demo_world
            (snd (generate_image_with_filename demo_env demo_world [65, 65] (str ''o.png'') demo_fonts))))
           = map (\<lambda>c. character_target demo_env c demo_fonts) (filter (\<lambda>c. c \<noteq> space) [65, 65])"
    and out: "output_image demo_env
           (snd (generate_image_with_filename demo_env demo_world [65, 65] (str ''o.png'') demo_fonts))
           (str ''o.png'') = Some canvas"
    and px: "\<forall>i<length [65, 65 :: nat].
                    \<forall>dx<width (glyph demo_env demo_world demo_fonts ([65, 65] ! i)).
                      \<forall>dy<height (glyph demo_env demo_world demo_fonts ([65, 65] ! i)).
                        dy < height canvas \<longrightarrow>
                        pix canvas (offset demo_env demo_world demo_fonts [65, 65] i + dx) dy
                          = blend demo_env transparent (pix (glyph demo_env demo_world demo_fonts ([65, 65] ! i)) dx dy)"
    by blast
  have "output_image demo_env
           (snd (generate_image_with_filename demo_env demo_world [65, 65] (str ''o.png'') demo_fonts))
           (str ''o.png'') = Some (composed demo_env demo_world demo_fonts [65, 65])"
    by (simp add: render_ok_parts(4) [OF ok])
  with out have "canvas = composed demo_env demo_world demo_fonts [65, 65]" by simp
  then have hc: "height canvas = 2"
    by (simp add: height_composed demo_glyphs glyph_A_def)
  have p0: "pix canvas 0 0 = pillow_blend transparent red"
    using px [rule_format, of 0 0 0] hc
    by (simp add: off demo_glyphs glyph_A_def demo_blend)
  have p1: "pix canvas 1 0 = pillow_blend transparent red"
    using px [rule_format, of 1 0 0] hc
    by (simp add: off demo_glyphs glyph_A_def demo_blend)
  from op have "opened (new_events demo_world
            (snd (generate_image_with_filename demo_env demo_world [65, 65] (str ''o.png'') demo_fonts)))
     = [str ''L/Upper-Case/A.png'', str ''L/Upper-Case/A.png'']"
    by (simp add: tg space_def map_eq_Cons_conv)
  with out p0 p1 show ?thesis
    unfolding t by blast
qed

text \<open>The asset of \<open>A\<close> is opened twice for the text \<open>AA\<close>.\<close>

theorem repeated_character_opened_twice:
  "count_list (opened (new_events demo_world
     (snd (generate_image_with_filename demo_env demo_world (str ''AA'') (str ''o.png'') demo_fonts))))
     (str ''L/Upper-Case/A.png'') = 2"
proof -
  have t: "str ''AA'' = [65, 65]" by (simp add: str_def)
  have ok: "fst (generate_image_with_filename demo_env demo_world [65, 65] (str ''o.png'') demo_fonts)
            = (Some (str ''o.png''), None)"
    by (simp add: demo_render_iff demo_loads demo_advance PILLOW_MAX_WIDTH_def)
  have ev: "char_events demo_env demo_world demo_fonts 65
            = [Stat (str ''L/Upper-Case/A.png''), Open (str ''L/Upper-Case/A.png'')]"
    by (simp add: char_events_expl demo_defs)
  show ?thesis
    unfolding t by (simp add: render_ok_parts(4) [OF ok] ev opened_def)
qed

subsection \<open>C5: the file name\<close>

text \<open>
  C5, as amended. \<open>generate_filename\<close> keeps the tokens that are alphanumeric as a whole:
  on \<open>Hello World!\<close> the token \<open>World!\<close> is dropped, and the result is \<open>Hello\<close>, a hyphen,
  the timestamp of fifteen characters to the second, and \<open>.png\<close>. For every input the
  result has at most \<open>MAX_FILENAME_LENGTH\<close> characters.
\<close>

theorem generate_filename_hello_world:
  "generate_filename demo_env now (str ''Hello World!'') = str ''Hello-'' @ strftime now @ str ''.png''
   \<and> length (strftime now) = 15
   \<and> length (generate_filename env now text) \<le> MAX_FILENAME_LENGTH"
proof -
  have sp: "split demo_env (str ''Hello World!'') = [str ''Hello'', str ''World!'']"
    by (simp add: split_def str_def demo_env_def)
  have fl: "filter (str_isalnum demo_env) [str ''Hello'', str ''World!''] = [str ''Hello'']"
    by (simp add: str_isalnum_def str_def demo_env_def ascii_letter_def ascii_digit_def)
  have "generate_filename demo_env now (str ''Hello World!'')
        = take MAX_FILENAME_LENGTH (str ''Hello'' @ str ''-'' @ strftime now @ str ''.png'')"
    by (simp only: generate_filename_def Let_def sp fl str_join.simps)
  also have "\<dots> = str ''Hello'' @ str ''-'' @ strftime now @ str ''.png''"
    by (rule take_all) (simp add: length_strftime MAX_FILENAME_LENGTH_def str_def)
  also have "\<dots> = str ''Hello-'' @ strftime now @ str ''.png''"
    by (simp add: str_def)
  finally have hello: "generate_filename demo_env now (str ''Hello World!'')
                       = str ''Hello-'' @ strftime now @ str ''.png''" .
  have bound: "length (generate_filename env now text) \<le> MAX_FILENAME_LENGTH"
    by (simp add: generate_filename_def Let_def)
  from hello bound show ?thesis
    by (simp only: length_strftime simp_thms)
qed

text \<open>The result does not start with \<open>Hello-World\<close>.\<close>

theorem hello_world_token_dropped:
  "take 11 (generate_filename demo_env demo_now (str ''Hello World!'')) \<noteq> str ''Hello-World''"
  by (simp add: generate_filename_def Let_def split_def str_def demo_env_def str_isalnum_def
      ascii_letter_def ascii_digit_def MAX_FILENAME_LENGTH_def strftime_def dec2_def dec4_def demo_now_def)

subsection \<open>C6: the result of a render\<close>

text \<open>
  C6. For every text, file name, font paths and state of the disk, the render returns
  either the file name with no error, or no file name with an error description, and
  never raises. It returns the file name exactly when the text is not empty, every
  character loads, the canvas can be created and the save does not fail, and then the
  canvas is saved under the output path by the one save of the render. In every other
  case the disk is unchanged and the result is the description the handlers give for the
  exception of the failure: that of the empty text, that of the first character that
  does not load (a missing glyph, a file that cannot be decoded or read), that of the
  canvas that cannot be created, or that of the save.
\<close>

theorem render_result_exactly_one:
  "(fst (generate_image_with_filename env w text filename fp) = (Some filename, None)
    \<or> (\<exists>msg. fst (generate_image_with_filename env w text filename fp) = (None, Some msg)))
   \<and> (fst (generate_image_with_filename env w text filename fp) = (Some filename, None)
        \<longleftrightarrow> text \<noteq> [] \<and> (\<forall>c\<in>set text. loads env w fp c)
            \<and> creatable w (canvas_size env w fp text)
            \<and> save_fault w (output_path env filename) = None)
   \<and> (fst (generate_image_with_filename env w text filename fp) = (Some filename, None) \<longrightarrow>
        output_image env (snd (generate_image_with_filename env w text filename fp)) filename
          = Some (composed env w fp text)
        \<and> saved (new_events w (snd (generate_image_with_filename env w text filename fp)))
            = [output_path env filename])
   \<and> (fst (generate_image_with_filename env w text filename fp) \<noteq> (Some filename, None) \<longrightarrow>
        files (snd (generate_image_with_filename env w text filename fp)) = files w)
   \<and> (text = [] \<longrightarrow>
        fst (generate_image_with_filename env w text filename fp)
          = (None, Some (error_description (OtherException (none_size_text env)))))
   \<and> (\<forall>pre c post e.
        text = pre @ c # post \<and> (\<forall>d\<in>set pre. loads env w fp d)
        \<and> char_outcome env w fp c = Inl e \<longrightarrow>
        fst (generate_image_with_filename env w text filename fp)
          = (None, Some (error_description e)))
   \<and> (\<forall>e. text \<noteq> [] \<and> (\<forall>c\<in>set text. loads env w fp c)
        \<and> Image_new env w (canvas_size env w fp text) transparent = Inl e \<longrightarrow>
        fst (generate_image_with_filename env w text filename fp)
          = (None, Some (error_description e)))
   \<and> (\<forall>e. text \<noteq> [] \<and> (\<forall>c\<in>set text. loads env w fp c)
        \<and> creatable w (canvas_size env w fp text)
        \<and> save_fault w (output_path env filename) = Some e \<longrightarrow>
        fst (generate_image_with_filename env w text filename fp)
          = (None, Some (error_description e)))"
  (is "?shape \<and> ?iff \<and> ?saved \<and> ?kept \<and> ?empty \<and> ?char \<and> ?new \<and> ?save")
proof -
  let ?r = "generate_image_with_filename env w text filename fp"
  have shape: ?shape
    by (simp add: generate_image_with_filename_def split: prod.splits sum.splits)
  have iff: ?iff by (rule render_success_iff)
  have saved: ?saved
  proof
    assume ok: "fst ?r = (Some filename, None)"
    show "output_image env (snd ?r) filename = Some (composed env w fp text)
          \<and> saved (new_events w (snd ?r)) = [output_path env filename]"
      by (simp add: render_ok_parts(4) [OF ok])
  qed
  have char: ?char by (auto simp: render_fail)
  have new: ?new by (auto simp: render_new_fault)
  have save: ?save by (auto simp: render_save_fault)
  have empty: ?empty by (simp add: render_empty)
  have kept: ?kept
  proof
    assume no: "fst ?r \<noteq> (Some filename, None)"
    show "files (snd ?r) = files w"
    proof (cases "text = []")
      case True
      then show ?thesis by (simp add: render_empty)
    next
      case ne: False
      show ?thesis
      proof (cases "\<forall>c\<in>set text. loads env w fp c")
        case all: True
        show ?thesis
        proof (cases "creatable w (canvas_size env w fp text)")
          case cr: True
          with no ne all obtain e where "save_fault w (output_path env filename) = Some e"
            by (auto simp: render_success_iff)
          from render_save_fault [OF ne all cr this] show ?thesis by simp
        next
          case False
          then obtain e where "Image_new env w (canvas_size env w fp text) transparent = Inl e"
            using Image_new_fail by blast
          from render_new_fault [OF ne all this, of filename] show ?thesis by simp
        qed
      next
        case False
        from render_fail_frame [OF False, of filename] show ?thesis by auto
      qed
    qed
  qed
  from shape iff saved kept empty char new save show ?thesis by blast
qed

text \<open>
  The text \<open>A\<close> is rendered and saved. The file of \<open>U\<close> cannot be identified, that of \<open>E\<close>
  cannot be read and \<open>Z\<close> has none: each render returns the description of its
  exception, and the disk is as before.
\<close>

theorem render_result_exactly_one_witness:
  "fst (generate_image_with_filename demo_env demo_world (str ''A'') (str ''o.png'') demo_fonts)
     = (Some (str ''o.png''), None)
   \<and> output_image demo_env
       (snd (generate_image_with_filename demo_env demo_world (str ''A'') (str ''o.png'') demo_fonts))
       (str ''o.png'') = Some (composed demo_env demo_world demo_fonts (str ''A''))
   \<and> fst (generate_image_with_filename demo_env demo_world (str ''U'') (str ''o.png'') demo_fonts)
     = (None, Some (str ''Error: Unsupported image format''))
   \<and> fst (generate_image_with_filename demo_env demo_world (str ''E'') (str ''o.png'') demo_fonts)
     = (None, Some (str ''An unexpected error occurred: Permission denied.''))
   \<and> fst (generate_image_with_filename demo_env demo_world (str ''Z'') (str ''o.png'') demo_fonts)
     = (None, Some (not_found_text 90))
   \<and> files (snd (generate_image_with_filename demo_env demo_world (str ''E'') (str ''o.png'') demo_fonts))
     = files demo_world"
proof -
  have t: "str ''A'' = [65]" "str ''U'' = [85]" "str ''E'' = [69]" "str ''Z'' = [90]"
    by (simp_all add: str_def)
  have okA: "[65 :: nat] \<noteq> [] \<and> (\<forall>c\<in>set [65]. loads demo_env demo_world demo_fonts c)
      \<and> creatable demo_world (canvas_size demo_env demo_world demo_fonts [65])
      \<and> save_fault demo_world (output_path demo_env (str ''o.png'')) = None"
    by (simp add: demo_loads demo_creatable demo_save canvas_size_def demo_advance
        PILLOW_MAX_WIDTH_def)
  have o: "char_outcome demo_env demo_world demo_fonts 85
             = Inl (UnidentifiedImageError (str ''cannot identify''))"
    "char_outcome demo_env demo_world demo_fonts 69
             = Inl (OtherException (str ''Permission denied''))"
    "char_outcome demo_env demo_world demo_fonts 90
             = Inl (FileNotFoundError (not_found_text 90) None)"
    by (simp_all add: char_outcome_expl demo_defs)
  have d: "error_description (UnidentifiedImageError (str ''cannot identify''))
             = str ''Error: Unsupported image format''"
    "error_description (OtherException (str ''Permission denied''))
             = str ''An unexpected error occurred: Permission denied.''"
    "error_description (FileNotFoundError (not_found_text 90) None) = not_found_text 90"
    by (simp_all add: error_description_def str_def)
  note A = render_result_exactly_one [of demo_env demo_world "[65]" "str ''o.png''" demo_fonts]
  note U = render_result_exactly_one [of demo_env demo_world "[85]" "str ''o.png''" demo_fonts]
  note E = render_result_exactly_one [of demo_env demo_world "[69]" "str ''o.png''" demo_fonts]
  note Z = render_result_exactly_one [of demo_env demo_world "[90]" "str ''o.png''" demo_fonts]
  have a1: "fst (generate_image_with_filename demo_env demo_world [65] (str ''o.png'')
      demo_fonts) = (Some (str ''o.png''), None)"
    unfolding A [THEN conjunct2, THEN conjunct1] by (rule okA)
  from A [THEN conjunct2, THEN conjunct2, THEN conjunct1, THEN mp, OF a1]
  have a2: "output_image demo_env
       (snd (generate_image_with_filename demo_env demo_world [65] (str ''o.png'') demo_fonts))
       (str ''o.png'') = Some (composed demo_env demo_world demo_fonts [65])"
    by (rule conjunct1)
  note chU = U [THEN conjunct2, THEN conjunct2, THEN conjunct2, THEN conjunct2, THEN conjunct2,
      THEN conjunct1, rule_format, of "[]" 85 "[]"]
  note chE = E [THEN conjunct2, THEN conjunct2, THEN conjunct2, THEN conjunct2, THEN conjunct2,
      THEN conjunct1, rule_format, of "[]" 69 "[]"]
  note chZ = Z [THEN conjunct2, THEN conjunct2, THEN conjunct2, THEN conjunct2, THEN conjunct2,
      THEN conjunct1, rule_format, of "[]" 90 "[]"]
  have u: "fst (generate_image_with_filename demo_env demo_world [85] (str ''o.png'') demo_fonts)
      = (None, Some (error_description (UnidentifiedImageError (str ''cannot identify''))))"
    by (rule chU) (simp add: o(1))
  have e: "fst (generate_image_with_filename demo_env demo_world [69] (str ''o.png'') demo_fonts)
      = (None, Some (error_description (OtherException (str ''Permission denied''))))"
    by (rule chE) (simp add: o(2))
  have z: "fst (generate_image_with_filename demo_env demo_world [90] (str ''o.png'') demo_fonts)
      = (None, Some (error_description (FileNotFoundError (not_found_text 90) None)))"
    by (rule chZ) (simp add: o(3))
  from e have "fst (generate_image_with_filename demo_env demo_world [69] (str ''o.png'')
      demo_fonts) \<noteq> (Some (str ''o.png''), None)"
    by simp
  from E [THEN conjunct2, THEN conjunct2, THEN conjunct2, THEN conjunct1, THEN mp, OF this]
  have k: "files (snd (generate_image_with_filename demo_env demo_world [69] (str ''o.png'')
      demo_fonts)) = files demo_world" .
  from a1 a2 u e z k show ?thesis
    unfolding t d by simp
qed

subsection \<open>C7: blank input\<close>

text \<open>
  C7, as amended. For a text that is empty or made of whitespace only, the handler of the
  Generate button makes no asset lookup and no access to the disk, and no file is
  produced: when the font entry converts to a number, the handler shows the error dialog
  of the empty input and returns without calling the renderer, whatever the renderer is;
  when it does not convert, the \<open>ValueError\<close> of the conversion leaves the handler before
  the check. The rejection is the handler's, not the renderer's:
  \<open>generate_image_with_filename\<close>, given a non-empty text of spaces, renders it and saves
  the canvas whenever the placeholder and the canvas can be created and the save does not
  fail.
\<close>

theorem blank_input_rejected:
  assumes "list_all (isspace env) text"
  shows "snd (generate_and_display_image env now generate_image w text font_var color) = w
         \<and> (\<forall>font. int_of_str env font_var = Inr font \<longrightarrow>
              fst (generate_and_display_image env now generate_image w text font_var color)
                = Inr ((if lower env text = str ''exit''
                        then [ShowInfo (str ''Info'') CLOSING_MESSAGE, Quit] else [])
                       @ [ShowError (str ''Error'')
                            (str ''Input text is empty. Please enter some text.'')]))
         \<and> (\<forall>e. int_of_str env font_var = Inl e \<longrightarrow>
              fst (generate_and_display_image env now generate_image w text font_var color) = Inl e)
         \<and> (text \<noteq> [] \<and> set text \<subseteq> {space} \<and> new_fault w (SPACE_WIDTH, 1) = None
              \<and> creatable w (SPACE_WIDTH * length text, 1)
              \<and> save_fault w (output_path env filename) = None \<longrightarrow>
              fst (generate_image_with_filename env w text filename fp) = (Some filename, None)
              \<and> saved (new_events w (snd (generate_image_with_filename env w text filename fp)))
                  = [output_path env filename])"
proof -
  have handler: "snd (generate_and_display_image env now generate_image w text font_var color) = w
         \<and> (\<forall>font. int_of_str env font_var = Inr font \<longrightarrow>
              fst (generate_and_display_image env now generate_image w text font_var color)
                = Inr ((if lower env text = str ''exit''
                        then [ShowInfo (str ''Info'') CLOSING_MESSAGE, Quit] else [])
                       @ [ShowError (str ''Error'')
                            (str ''Input text is empty. Please enter some text.'')]))
         \<and> (\<forall>e. int_of_str env font_var = Inl e \<longrightarrow>
              fst (generate_and_display_image env now generate_image w text font_var color) = Inl e)"
    using assms
    by (cases "int_of_str env font_var") (simp_all add: generate_and_display_image_def strip_empty)
  have renderer: "text \<noteq> [] \<and> set text \<subseteq> {space} \<and> new_fault w (SPACE_WIDTH, 1) = None
              \<and> creatable w (SPACE_WIDTH * length text, 1)
              \<and> save_fault w (output_path env filename) = None \<longrightarrow>
              fst (generate_image_with_filename env w text filename fp) = (Some filename, None)
              \<and> saved (new_events w (snd (generate_image_with_filename env w text filename fp)))
                  = [output_path env filename]"
  proof (intro impI, elim conjE)
    assume ne: "text \<noteq> []" and sp: "set text \<subseteq> {space}"
      and nf: "new_fault w (SPACE_WIDTH, 1) = None"
      and cr: "creatable w (SPACE_WIDTH * length text, 1)"
      and sv: "save_fault w (output_path env filename) = None"
    from nf have l: "loads env w fp space" by (simp add: loads_iff)
    with sp have all: "\<forall>c\<in>set text. loads env w fp c" by auto
    from spaces_canvas_size [OF ne sp l] cr
    have cr': "creatable w (canvas_size env w fp text)" by simp
    show "fst (generate_image_with_filename env w text filename fp) = (Some filename, None)
              \<and> saved (new_events w (snd (generate_image_with_filename env w text filename fp)))
                  = [output_path env filename]"
      by (simp add: render_ok [OF ne all cr' sv])
  qed
  from handler renderer show ?thesis by blast
qed

text \<open>
  With the font entry \<open>1\<close> the blank text is rejected by the dialog; with the font entry
  \<open>x\<close> the handler raises. In both cases the disk and the log are as before.
\<close>

theorem blank_input_rejected_witness:
  "generate_and_display_image demo_env demo_now (main_renderer demo_env) demo_world
     (str ''  '') (str ''1'') (str ''Blue'')
   = (Inr [ShowError (str ''Error'') (str ''Input text is empty. Please enter some text.'')],
      demo_world)
   \<and> generate_and_display_image demo_env demo_now (main_renderer demo_env) demo_world
     (str ''  '') (str ''x'') (str ''Blue'')
   = (Inl (ValueError (str ''invalid literal for int() with base 10: '' @ [39] @ str ''x'' @ [39])),
      demo_world)"
proof -
  have b: "list_all (isspace demo_env) (str ''  '')" by (simp add: demo_env_def str_def)
  have l: "lower demo_env (str ''  '') \<noteq> str ''exit''" by (simp add: demo_env_def str_def)
  have i: "int_of_str demo_env (str ''1'') = Inr 1"
    "int_of_str demo_env (str ''x'')
       = Inl (ValueError (str ''invalid literal for int() with base 10: '' @ [39] @ str ''x'' @ [39]))"
    by (simp_all add: demo_env_def str_def ascii_digit_def)
  note one = blank_input_rejected [OF b, of demo_now "main_renderer demo_env" demo_world
      "str ''1''" "str ''Blue''"]
  note bad = blank_input_rejected [OF b, of demo_now "main_renderer demo_env" demo_world
      "str ''x''" "str ''Blue''"]
  from one i(1) l have 1: "generate_and_display_image demo_env demo_now (main_renderer demo_env)
      demo_world (str ''  '') (str ''1'') (str ''Blue'')
      = (Inr [ShowError (str ''Error'') (str ''Input text is empty. Please enter some text.'')],
         demo_world)"
    by (simp add: prod_eq_iff)
  from bad i(2) have 2: "generate_and_display_image demo_env demo_now (main_renderer demo_env)
      demo_world (str ''  '') (str ''x'') (str ''Blue'')
      = (Inl (ValueError (str ''invalid literal for int() with base 10: '' @ [39] @ str ''x''
                          @ [39])), demo_world)"
    by (simp add: prod_eq_iff)
  from 1 2 show ?thesis by simp
qed

text \<open>
  The renderer, called on a text of two spaces, rejects nothing: it returns the file name
  and has saved the canvas.
\<close>

theorem spaces_rendered_by_compositor:
  "list_all (isspace demo_env) (str ''  '')
   \<and> fst (generate_image_with_filename demo_env demo_world (str ''  '') (str ''o.png'') demo_fonts)
       = (Some (str ''o.png''), None)
   \<and> saved (new_events demo_world
        (snd (generate_image_with_filename demo_env demo_world (str ''  '') (str ''o.png'')
                demo_fonts)))
       = [str ''/home/user/Desktop/o.png'']"
proof -
  have t: "str ''  '' = [32, 32]" by (simp add: str_def)
  have ok: "fst (generate_image_with_filename demo_env demo_world [32, 32] (str ''o.png'') demo_fonts)
            = (Some (str ''o.png''), None)"
    by (simp add: demo_render_iff demo_loads demo_advance PILLOW_MAX_WIDTH_def)
  have b: "list_all (isspace demo_env) [32, 32]" by (simp add: demo_env_def)
  from ok b show ?thesis
    unfolding t by (simp add: render_ok_parts(4) [OF ok] demo_output_path)
qed

subsection \<open>C8: the save is inside the compositor\<close>




subsection \<open>C9: the order of the glyphs\<close>

text \<open>
  C9, as amended. In the canvas of a render that succeeds, the glyph of each character is
  at the horizontal offset that is the sum of the advance widths of the characters before
  it: inside the canvas, the pixels of its box there are the glyph's, blended onto the
  transparent canvas. The box of a character ends at or before the offset of every later
  character and inside the width of the canvas, so no two glyphs overlap horizontally.
  For two characters, the renders of \<open>ab\<close> and \<open>ba\<close> have the two glyphs swapped, and the
  two canvases are the same image exactly when the two glyphs have the same height and
  the row of blended columns of \<open>a\<close> followed by those of \<open>b\<close> is the row of those of \<open>b\<close>
  followed by those of \<open>a\<close>; in every other case their pixel contents differ.
\<close>

theorem glyphs_placed_in_text_order:
  assumes "fst (generate_image_with_filename env w text filename fp) = (Some filename, None)"
  shows "\<exists>canvas.
           output_image env (snd (generate_image_with_filename env w text filename fp)) filename
             = Some canvas
           \<and> (\<forall>i<length text.
                \<forall>dx<width (glyph env w fp (text ! i)).
                  \<forall>dy<height (glyph env w fp (text ! i)).
                    dy < height canvas \<longrightarrow>
                    pix canvas (offset env w fp text i + dx) dy
                      = blend env transparent (pix (glyph env w fp (text ! i)) dx dy))
           \<and> (\<forall>i j. i < j \<and> j < length text \<longrightarrow>
                offset env w fp text i + width (glyph env w fp (text ! i)) \<le> offset env w fp text j)
           \<and> (\<forall>i<length text.
                offset env w fp text i + width (glyph env w fp (text ! i)) \<le> width canvas)
           \<and> (\<forall>a b canvas'.
                text = [a, b]
                \<and> fst (generate_image_with_filename env w [b, a] filename fp) = (Some filename, None)
                \<and> output_image env (snd (generate_image_with_filename env w [b, a] filename fp)) filename
                    = Some canvas'
                \<longrightarrow>
                (canvas' = canvas \<longleftrightarrow>
                   height (glyph env w fp a) = height (glyph env w fp b)
                   \<and> (\<forall>x<width (glyph env w fp a) + width (glyph env w fp b).
                        \<forall>y<height (glyph env w fp a).
                          (if x < width (glyph env w fp a)
                           then blend env transparent (pix (glyph env w fp a) x y)
                           else blend env transparent
                                  (pix (glyph env w fp b) (x - width (glyph env w fp a)) y))
                          = (if x < width (glyph env w fp b)
                             then blend env transparent (pix (glyph env w fp b) x y)
                             else blend env transparent
                                    (pix (glyph env w fp a) (x - width (glyph env w fp b)) y)))))"
proof -
  note r = render_ok_parts [OF assms]
  have out: "output_image env (snd (generate_image_with_filename env w text filename fp)) filename
             = Some (composed env w fp text)"
    by (simp add: r(4))
  have px: "\<forall>i<length text.
                \<forall>dx<width (glyph env w fp (text ! i)).
                  \<forall>dy<height (glyph env w fp (text ! i)).
                    dy < height (composed env w fp text) \<longrightarrow>
                    pix (composed env w fp text) (offset env w fp text i + dx) dy
                      = blend env transparent (pix (glyph env w fp (text ! i)) dx dy)"
    by (simp add: composed_pixel [OF r(2)])
  have ov: "\<forall>i j. i < j \<and> j < length text \<longrightarrow>
                offset env w fp text i + width (glyph env w fp (text ! i)) \<le> offset env w fp text j"
    by (simp add: offset_before [OF r(2)])
  have wd: "\<forall>i<length text.
                offset env w fp text i + width (glyph env w fp (text ! i))
                  \<le> width (composed env w fp text)"
  proof (intro allI impI)
    fix i assume "i < length text"
    then have "offset env w fp text i + width (glyph env w fp (text ! i))
               \<le> offset env w fp text (length text)"
      by (intro offset_before [OF r(2)]) simp_all
    then show "offset env w fp text i + width (glyph env w fp (text ! i))
                  \<le> width (composed env w fp text)"
      by (simp add: width_composed offset_def)
  qed
  have sw: "\<forall>a b canvas'.
                text = [a, b]
                \<and> fst (generate_image_with_filename env w [b, a] filename fp) = (Some filename, None)
                \<and> output_image env (snd (generate_image_with_filename env w [b, a] filename fp)) filename
                    = Some canvas'
                \<longrightarrow>
                (canvas' = composed env w fp text \<longleftrightarrow>
                   height (glyph env w fp a) = height (glyph env w fp b)
                   \<and> (\<forall>x<width (glyph env w fp a) + width (glyph env w fp b).
                        \<forall>y<height (glyph env w fp a).
                          (if x < width (glyph env w fp a)
                           then blend env transparent (pix (glyph env w fp a) x y)
                           else blend env transparent
                                  (pix (glyph env w fp b) (x - width (glyph env w fp a)) y))
                          = (if x < width (glyph env w fp b)
                             then blend env transparent (pix (glyph env w fp b) x y)
                             else blend env transparent
                                    (pix (glyph env w fp a) (x - width (glyph env w fp b)) y))))"
  proof (intro allI impI, elim conjE)
    fix a b canvas'
    assume t: "text = [a, b]"
      and ok': "fst (generate_image_with_filename env w [b, a] filename fp) = (Some filename, None)"
      and o': "output_image env (snd (generate_image_with_filename env w [b, a] filename fp)) filename
                    = Some canvas'"
    from o' have c': "canvas' = composed env w fp [b, a]"
      by (simp add: render_ok_parts(4) [OF ok'])
    from r(2) t have l: "loads env w fp a" "loads env w fp b" by simp_all
    show "canvas' = composed env w fp text \<longleftrightarrow>
                   height (glyph env w fp a) = height (glyph env w fp b)
                   \<and> (\<forall>x<width (glyph env w fp a) + width (glyph env w fp b).
                        \<forall>y<height (glyph env w fp a).
                          (if x < width (glyph env w fp a)
                           then blend env transparent (pix (glyph env w fp a) x y)
                           else blend env transparent
                                  (pix (glyph env w fp b) (x - width (glyph env w fp a)) y))
                          = (if x < width (glyph env w fp b)
                             then blend env transparent (pix (glyph env w fp b) x y)
                             else blend env transparent
                                    (pix (glyph env w fp a) (x - width (glyph env w fp b)) y)))"
      unfolding c' t composed_swap_iff [OF l, symmetric] by (rule eq_commute)
  qed
  from out px ov wd sw show ?thesis by blast
qed

text \<open>
  The red \<open>A\<close> and the blue \<open>C\<close>: \<open>AC\<close> has red at column 0 and blue at column 1, and
  \<open>CA\<close> gives another canvas.
\<close>

theorem glyphs_placed_in_text_order_witness:
  "\<exists>canvas.
     output_image demo_env
       (snd (generate_image_with_filename demo_env demo_world (str ''AC'') (str ''o.png'') demo_fonts))
       (str ''o.png'') = Some canvas
     \<and> pix canvas 0 0 = red \<and> pix canvas 1 0 = blue
     \<and> output_image demo_env
         (snd (generate_image_with_filename demo_env demo_world (str ''CA'') (str ''o.png'') demo_fonts))
         (str ''o.png'') \<noteq> Some canvas"
proof -
  have t: "str ''AC'' = [65, 67]" "str ''CA'' = [67, 65]" by (simp_all add: str_def)
  have ok: "fst (generate_image_with_filename demo_env demo_world [65, 67] (str ''o.png'') demo_fonts)
            = (Some (str ''o.png''), None)"
    and ok': "fst (generate_image_with_filename demo_env demo_world [67, 65] (str ''o.png'') demo_fonts)
            = (Some (str ''o.png''), None)"
    by (simp_all add: demo_render_iff demo_loads demo_advance PILLOW_MAX_WIDTH_def)
  have off: "offset demo_env demo_world demo_fonts [65, 67] 0 = 0"
    "offset demo_env demo_world demo_fonts [65, 67] (Suc 0) = 1"
    by (simp_all add: offset_def demo_advance)
  from glyphs_placed_in_text_order [OF ok]
  obtain canvas where out: "output_image demo_env
       (snd (generate_image_with_filename demo_env demo_world [65, 67] (str ''o.png'') demo_fonts))
       (str ''o.png'') = Some canvas"
    and px: "\<forall>i<length [65, 67 :: nat].
                \<forall>dx<width (glyph demo_env demo_world demo_fonts ([65, 67] ! i)).
                  \<forall>dy<height (glyph demo_env demo_world demo_fonts ([65, 67] ! i)).
                    dy < height canvas \<longrightarrow>
                    pix canvas (offset demo_env demo_world demo_fonts [65, 67] i + dx) dy
                      = blend demo_env transparent
                          (pix (glyph demo_env demo_world demo_fonts ([65, 67] ! i)) dx dy)"
    and sw: "\<forall>a b canvas'.
                [65, 67] = [a, b]
                \<and> fst (generate_image_with_filename demo_env demo_world [b, a] (str ''o.png'') demo_fonts)
                    = (Some (str ''o.png''), None)
                \<and> output_image demo_env
                     (snd (generate_image_with_filename demo_env demo_world [b, a] (str ''o.png'') demo_fonts))
                     (str ''o.png'') = Some canvas'
                \<longrightarrow>
                (canvas' = canvas \<longleftrightarrow>
                   height (glyph demo_env demo_world demo_fonts a)
                     = height (glyph demo_env demo_world demo_fonts b)
                   \<and> (\<forall>x<width (glyph demo_env demo_world demo_fonts a)
                           + width (glyph demo_env demo_world demo_fonts b).
                        \<forall>y<height (glyph demo_env demo_world demo_fonts a).
                          (if x < width (glyph demo_env demo_world demo_fonts a)
                           then blend demo_env transparent (pix (glyph demo_env demo_world demo_fonts a) x y)
                           else blend demo_env transparent
                                  (pix (glyph demo_env demo_world demo_fonts b)
                                     (x - width (glyph demo_env demo_world demo_fonts a)) y))
                          = (if x < width (glyph demo_env demo_world demo_fonts b)
                             then blend demo_env transparent (pix (glyph demo_env demo_world demo_fonts b) x y)
                             else blend demo_env transparent
                                    (pix (glyph demo_env demo_world demo_fonts a)
                                       (x - width (glyph demo_env demo_world demo_fonts b)) y))))"
    by blast
  have "output_image demo_env
       (snd (generate_image_with_filename demo_env demo_world [65, 67] (str ''o.png'') demo_fonts))
       (str ''o.png'') = Some (composed demo_env demo_world demo_fonts [65, 67])"
    by (simp add: render_ok_parts(4) [OF ok])
  with out have "canvas = composed demo_env demo_world demo_fonts [65, 67]" by simp
  then have hc: "height canvas = 2"
    by (simp add: height_composed demo_glyphs glyph_A_def)
  have p0: "pix canvas 0 0 = red"
    using px [rule_format, of 0 0 0] hc
    by (simp add: off demo_glyphs glyph_A_def demo_blend pillow_blend_opaque)
  have p1: "pix canvas 1 0 = blue"
    using px [rule_format, of 1 0 0] hc
    by (simp add: off demo_glyphs glyph_C_def demo_blend pillow_blend_opaque)
  have "output_image demo_env
         (snd (generate_image_with_filename demo_env demo_world [67, 65] (str ''o.png'') demo_fonts))
         (str ''o.png'') \<noteq> Some canvas"
  proof
    assume o': "output_image demo_env
         (snd (generate_image_with_filename demo_env demo_world [67, 65] (str ''o.png'') demo_fonts))
         (str ''o.png'') = Some canvas"
    from sw [rule_format, of 65 67 canvas] o' ok'
    have "\<forall>x<width (glyph demo_env demo_world demo_fonts 65)
                + width (glyph demo_env demo_world demo_fonts 67).
            \<forall>y<height (glyph demo_env demo_world demo_fonts 65).
              (if x < width (glyph demo_env demo_world demo_fonts 65)
               then blend demo_env transparent (pix (glyph demo_env demo_world demo_fonts 65) x y)
               else blend demo_env transparent
                      (pix (glyph demo_env demo_world demo_fonts 67)
                         (x - width (glyph demo_env demo_world demo_fonts 65)) y))
              = (if x < width (glyph demo_env demo_world demo_fonts 67)
                 then blend demo_env transparent (pix (glyph demo_env demo_world demo_fonts 67) x y)
                 else blend demo_env transparent
                        (pix (glyph demo_env demo_world demo_fonts 65)
                           (x - width (glyph demo_env demo_world demo_fonts 67)) y))"
      by simp
    from this [rule_format, of 0 0] show False
      by (simp add: demo_glyphs glyph_A_def glyph_C_def demo_blend pillow_blend_opaque red_not_blue)
  qed
  with out p0 p1 show ?thesis unfolding t by blast
qed

text \<open>
  The glyphs of \<open>A\<close> and \<open>B\<close> are distinct, one and two columns of the same red, and the
  renders of \<open>AB\<close> and \<open>BA\<close> are the same image.
\<close>

theorem swapped_texts_same_pixels:
  "glyph demo_env demo_world demo_fonts 65 \<noteq> glyph demo_env demo_world demo_fonts 66
   \<and> output_image demo_env
       (snd (generate_image_with_filename demo_env demo_world (str ''AB'') (str ''o.png'') demo_fonts))
       (str ''o.png'')
     = output_image demo_env
       (snd (generate_image_with_filename demo_env demo_world (str ''BA'') (str ''o.png'') demo_fonts))
       (str ''o.png'')
   \<and> output_image demo_env
       (snd (generate_image_with_filename demo_env demo_world (str ''AB'') (str ''o.png'') demo_fonts))
       (str ''o.png'') \<noteq> None"
proof -
  have t: "str ''AB'' = [65, 66]" "str ''BA'' = [66, 65]" by (simp_all add: str_def)
  have ok: "fst (generate_image_with_filename demo_env demo_world [65, 66] (str ''o.png'') demo_fonts)
            = (Some (str ''o.png''), None)"
    "fst (generate_image_with_filename demo_env demo_world [66, 65] (str ''o.png'') demo_fonts)
            = (Some (str ''o.png''), None)"
    by (simp_all add: demo_render_iff demo_loads demo_advance PILLOW_MAX_WIDTH_def)
  have eq: "composed demo_env demo_world demo_fonts [65, 66]
            = composed demo_env demo_world demo_fonts [66, 65]"
    by (auto simp: composed_def canvas_size_def demo_advance demo_glyphs glyph_A_def glyph_B_def
        filled_def paste_def fun_eq_iff)
  have ne: "glyph demo_env demo_world demo_fonts 65 \<noteq> glyph demo_env demo_world demo_fonts 66"
    by (simp add: demo_glyphs glyph_A_def glyph_B_def)
  show ?thesis
    unfolding t by (simp add: render_ok_parts(4) [OF ok(1)] render_ok_parts(4) [OF ok(2)] eq ne)
qed

subsection \<open>C10: the folder of a letter\<close>

text \<open>
  C10. For an alphabetic character the path is built in the letters root, in the folder
  \<open>Lower-Case\<close> when \<open>islower\<close> holds and in \<open>Upper-Case\<close> whenever it does not, cased or
  not, with the character and \<open>.png\<close> as file name; that path is the one checked and
  returned. A character that is not alphabetic is resolved without the letters root.
\<close>

theorem alphabetic_folder_by_islower:
  "(isalpha env c \<longrightarrow>
      get_character_image_path env w c (L, N, S) =
        (let folder = (if islower env c then str ''Lower-Case'' else str ''Upper-Case'');
             p = path_join env L [folder, c # str ''.png'']
         in (if files w p = None then Inl (FileNotFoundError (not_found_text c) None)
             else Inr (Some p),
             w\<lparr>log := log w @ [Stat p]\<rparr>)))
   \<and> (\<not> isalpha env c \<longrightarrow>
        get_character_image_path env w c (L, N, S) = get_character_image_path env w c (L', N, S))"
  by (simp add: get_character_image_path_def character_target_def os_path_isfile_def Let_def)

text \<open>
  The ideograph U+4E2D is alphabetic and not lower case: its path is in \<open>Upper-Case\<close>, as
  is that of \<open>A\<close>.
\<close>

theorem alphabetic_folder_by_islower_witness:
  "get_character_image_path demo_env demo_world 20013 demo_fonts =
     (Inl (FileNotFoundError (not_found_text 20013) None),
      demo_world\<lparr>log := [Stat (str ''L/Upper-Case/'' @ [20013] @ str ''.png'')]\<rparr>)
   \<and> get_character_image_path demo_env demo_world 65 demo_fonts =
     (Inr (Some (str ''L/Upper-Case/A.png'')),
      demo_world\<lparr>log := [Stat (str ''L/Upper-Case/A.png'')]\<rparr>)"
proof -
  have a: "isalpha demo_env 20013" "isalpha demo_env 65"
    by (simp_all add: demo_env_def ascii_letter_def)
  show ?thesis
    using a alphabetic_folder_by_islower [of demo_env 20013 demo_world "str ''L''" "str ''N''" "str ''S''"]
      alphabetic_folder_by_islower [of demo_env 65 demo_world "str ''L''" "str ''N''" "str ''S''"]
    by (simp add: demo_env_def demo_world_def demo_fonts_def str_def Let_def)
qed

end
